theory Spec2Isabelle
  imports Complex_Main "HOL-Library.Word"
begin

section \<open>Single-precision values\<close>

text \<open>
  The program computes with C \<^verbatim>\<open>float\<close> (IEEE binary32).  A value is a sign bit with a
  magnitude, a signed infinity, or a NaN, which has a sign bit too.  The magnitude of a binary32 number is a dyadic
  rational; the type below admits every rational as magnitude (a negative one counts by
  its absolute value), so it has more values than binary32 has, and a statement proved
  for all of its values holds for all binary32 values.  The arithmetic always rounds its
  result into binary32 (\<open>round32\<close>, round to nearest, ties to even, the default rounding
  mode).
\<close>

datatype float32 = Finite bool rat | Infinity bool | NaN bool

fun is_finite :: "float32 \<Rightarrow> bool" where
  "is_finite (Finite s m) = True"
| "is_finite (Infinity s) = False"
| "is_finite (NaN s) = False"

fun sign_bit :: "float32 \<Rightarrow> bool" where
  "sign_bit (Finite s m) = s"
| "sign_bit (Infinity s) = s"
| "sign_bit (NaN s) = s"

fun magnitude :: "float32 \<Rightarrow> rat" where
  "magnitude (Finite s m) = \<bar>m\<bar>"
| "magnitude (Infinity s) = 0"
| "magnitude (NaN s) = 0"

definition valof :: "float32 \<Rightarrow> rat" where
  "valof x = (if sign_bit x then - magnitude x else magnitude x)"

definition pow2 :: "int \<Rightarrow> rat" where
  "pow2 k = (if 0 \<le> k then 2 ^ nat k else 1 / 2 ^ nat (- k))"

definition round_half_even :: "rat \<Rightarrow> int" where
  "round_half_even x =
     (let f = \<lfloor>x\<rfloor>; d = x - of_int f
      in if d < 1 / 2 then f else if 1 / 2 < d then f + 1
         else if even f then f else f + 1)"

text \<open>
  The binary exponent of a magnitude, searched downwards from 127 and never below -126
  (the exponent of the subnormal numbers): \<open>find_exp 253 a\<close> is the largest
  \<open>e\<close> in \<open>{-126..127}\<close> with \<open>2 ^ e \<le> a\<close>, and -126 when there is none.
\<close>

primrec find_exp :: "nat \<Rightarrow> rat \<Rightarrow> int" where
  "find_exp 0 a = - 126"
| "find_exp (Suc n) a =
     (if pow2 (int (Suc n) - 126) \<le> a then int (Suc n) - 126 else find_exp n a)"

definition ulp32 :: "rat \<Rightarrow> rat" where
  "ulp32 a = pow2 (find_exp 253 a - 23)"

text \<open>Rounding a magnitude to 24 significant bits; \<open>2 ^ 128\<close> and above overflow.\<close>

definition round32 :: "bool \<Rightarrow> rat \<Rightarrow> float32" where
  "round32 s a =
     (let r = of_int (round_half_even (a / ulp32 a)) * ulp32 a
      in if pow2 128 \<le> r then Infinity s else Finite s r)"

text \<open>A decimal literal with suffix \<^verbatim>\<open>f\<close>, such as \<^verbatim>\<open>1.8f\<close>: the nearest binary32 number.\<close>

definition f32 :: "rat \<Rightarrow> float32" where
  "f32 x = round32 (x < 0) \<bar>x\<bar>"

text \<open>\<^verbatim>\<open>static_cast<float>(i)\<close> for an \<^verbatim>\<open>int\<close> \<open>i\<close>.\<close>

definition f32_of_int :: "int \<Rightarrow> float32" where
  "f32_of_int i = f32 (of_int i)"

text \<open>
  An operation with a NaN operand gives that NaN, sign included.  An operation without a
  result (the difference of equal infinities, zero times infinity, zero by zero, infinity
  by infinity) gives the default NaN, whose sign bit is clear on ARM; with the constants
  of this program no such operation occurs.
\<close>

fun f32_neg :: "float32 \<Rightarrow> float32" where
  "f32_neg (Finite s m) = Finite (\<not> s) m"
| "f32_neg (Infinity s) = Infinity (\<not> s)"
| "f32_neg (NaN s) = NaN (\<not> s)"

fun f32_add :: "float32 \<Rightarrow> float32 \<Rightarrow> float32" where
  "f32_add (NaN s) y = NaN s"
| "f32_add x (NaN t) = NaN t"
| "f32_add (Infinity s) (Infinity t) = (if s = t then Infinity s else NaN False)"
| "f32_add (Infinity s) (Finite t n) = Infinity s"
| "f32_add (Finite s m) (Infinity t) = Infinity t"
| "f32_add (Finite s m) (Finite t n) =
     (let r = valof (Finite s m) + valof (Finite t n)
      in if r = 0 then Finite (s \<and> t) 0 else f32 r)"

definition f32_sub :: "float32 \<Rightarrow> float32 \<Rightarrow> float32" where
  "f32_sub x y = f32_add x (f32_neg y)"

fun f32_mul :: "float32 \<Rightarrow> float32 \<Rightarrow> float32" where
  "f32_mul (NaN s) y = NaN s"
| "f32_mul x (NaN t) = NaN t"
| "f32_mul (Infinity s) (Infinity t) = Infinity (s \<noteq> t)"
| "f32_mul (Infinity s) (Finite t n) = (if n = 0 then NaN False else Infinity (s \<noteq> t))"
| "f32_mul (Finite s m) (Infinity t) = (if m = 0 then NaN False else Infinity (s \<noteq> t))"
| "f32_mul (Finite s m) (Finite t n) = round32 (s \<noteq> t) (\<bar>m\<bar> * \<bar>n\<bar>)"

fun f32_div :: "float32 \<Rightarrow> float32 \<Rightarrow> float32" where
  "f32_div (NaN s) y = NaN s"
| "f32_div x (NaN t) = NaN t"
| "f32_div (Infinity s) (Infinity t) = NaN False"
| "f32_div (Infinity s) (Finite t n) = Infinity (s \<noteq> t)"
| "f32_div (Finite s m) (Infinity t) = Finite (s \<noteq> t) 0"
| "f32_div (Finite s m) (Finite t n) =
     (if n = 0 then (if m = 0 then NaN False else Infinity (s \<noteq> t))
      else round32 (s \<noteq> t) (\<bar>m\<bar> / \<bar>n\<bar>))"

section \<open>Formatted output\<close>

text \<open>
  \<^verbatim>\<open>printf\<close> as the C standard describes it, for the two conversions of the program's
  format string: \<^verbatim>\<open>%s\<close> and \<^verbatim>\<open>%.Nf\<close> with one precision digit.  A \<^verbatim>\<open>float\<close> argument
  is promoted to \<^verbatim>\<open>double\<close>, which keeps its value, and is written in decimal with
  exactly \<open>N\<close> digits after the point, correctly rounded (ties to even).  An infinity
  is written \<^verbatim>\<open>inf\<close> or \<^verbatim>\<open>-inf\<close> and a NaN \<^verbatim>\<open>nan\<close> or \<^verbatim>\<open>-nan\<close>, by the sign bit; the
  standard leaves the library the choice of a longer word for each, in no case with digits
  after a point.  A directive or an argument that does not fit is an error of the model.
\<close>

definition digit_char :: "nat \<Rightarrow> char" where
  "digit_char d = ''0123456789'' ! (d mod 10)"

fun dec :: "nat \<Rightarrow> string" where
  "dec n = (if n < 10 then [digit_char n] else dec (n div 10) @ [digit_char (n mod 10)])"

primrec frac_digits :: "nat \<Rightarrow> nat \<Rightarrow> string" where
  "frac_digits 0 n = []"
| "frac_digits (Suc k) n = frac_digits k (n div 10) @ [digit_char (n mod 10)]"

fun fmt_fixed :: "nat \<Rightarrow> float32 \<Rightarrow> string" where
  "fmt_fixed p (NaN s) = (if s then ''-nan'' else ''nan'')"
| "fmt_fixed p (Infinity s) = (if s then ''-inf'' else ''inf'')"
| "fmt_fixed p (Finite s m) =
     (let n = nat (round_half_even (\<bar>m\<bar> * 10 ^ p))
      in (if s then ''-'' else '''') @ dec (n div 10 ^ p) @
         (if p = 0 then '''' else ''.'' @ frac_digits p (n mod 10 ^ p)))"

datatype printf_arg = Arg_str string | Arg_double float32

datatype printf_error = Bad_format | Bad_argument

definition digit_of :: "char \<Rightarrow> nat option" where
  "digit_of c = map_of (zip ''0123456789'' [0, 1, 2, 3, 4, 5, 6, 7, 8, 9]) c"

definition prepend :: "string \<Rightarrow> printf_error + string \<Rightarrow> printf_error + string" where
  "prepend s r = (case r of Inl e \<Rightarrow> Inl e | Inr t \<Rightarrow> Inr (s @ t))"

fun printf_fmt :: "string \<Rightarrow> printf_arg list \<Rightarrow> printf_error + string" where
  "printf_fmt [] args = Inr []"
| "printf_fmt (c # cs) args =
     (if c \<noteq> CHR ''%'' then prepend [c] (printf_fmt cs args)
      else if take 1 cs = ''s'' then
        (case args of
           Arg_str s # args' \<Rightarrow> prepend s (printf_fmt (drop 1 cs) args')
         | _ \<Rightarrow> Inl Bad_argument)
      else if take 1 cs = ''.'' \<and> take 1 (drop 2 cs) = ''f'' then
        (case digit_of (cs ! 1) of
           None \<Rightarrow> Inl Bad_format
         | Some p \<Rightarrow>
             (case args of
                Arg_double x # args' \<Rightarrow> prepend (fmt_fixed p x) (printf_fmt (drop 3 cs) args')
              | _ \<Rightarrow> Inl Bad_argument))
      else Inl Bad_format)"

section \<open>The program\<close>

subsection \<open>Configuration\<close>

definition kDeviceId :: string where
  "kDeviceId = ''MIZU_0001''"

definition kDummyWindSpeedMs :: float32 where
  "kDummyWindSpeedMs = f32 (52 / 10)"

definition telemetry_format :: string where
  "telemetry_format =
     ''device_id=%s,ambient_temp=%.2f,humidity=%.2f,soil_moisture=%.1f,soil_temp=%.1f,wind_speed=%.1f,longitude=%.6f,latitude=%.6f''
     @ [CHR 0x0D, CHR 0x0A]"

subsection \<open>The working variables of \<^verbatim>\<open>main\<close>\<close>

type_synonym c_int = "32 word"

record main_vars =
  battery_voltage_v :: float32
  board_temp_c :: float32
  ambient_temp_c :: float32
  relative_humidity_percent :: float32
  gps_quality_flag :: c_int
  gps_sat_count :: c_int
  gps_fix_check :: c_int
  gps_ns_indicator :: char
  gps_ew_indicator :: char
  gps_alt_unit :: char
  gps_time_utc :: float32
  gps_latitude_deg :: float32
  gps_longitude_deg :: float32
  gps_horz_acc_m :: float32
  gps_altitude_m :: float32

definition main_init :: main_vars where
  "main_init =
     \<lparr> battery_voltage_v = Finite False 0,
       board_temp_c = Finite False 0,
       ambient_temp_c = Finite False 0,
       relative_humidity_percent = Finite False 0,
       gps_quality_flag = 0,
       gps_sat_count = 0,
       gps_fix_check = 0,
       gps_ns_indicator = CHR ''N'',
       gps_ew_indicator = CHR ''E'',
       gps_alt_unit = CHR ''m'',
       gps_time_utc = Finite False 0,
       gps_latitude_deg = Finite False 0,
       gps_longitude_deg = Finite False 0,
       gps_horz_acc_m = Finite False 0,
       gps_altitude_m = Finite False 0 \<rparr>"

subsection \<open>The collaborators\<close>

text \<open>
  The drivers are not part of the program.  What they do in one iteration of the loop is
  an input of the model.  A driver that gets a pointer to a variable either stores a
  value there (\<open>Some v\<close>) or leaves the variable alone (\<open>None\<close>); a driver that returns
  its reading returns some value of its result type.  Every call returns.  An event is
  recorded for each call, in the order of the calls.
\<close>

record gga_writes =
  w_time_utc :: "float32 option"
  w_latitude_deg :: "float32 option"
  w_ns_indicator :: "char option"
  w_longitude_deg :: "float32 option"
  w_ew_indicator :: "char option"
  w_quality_flag :: "c_int option"
  w_sat_count :: "c_int option"
  w_horz_acc_m :: "float32 option"
  w_altitude_m :: "float32 option"
  w_alt_unit :: "char option"
  w_fix_check :: "c_int option"

record cycle_env =
  vol_writes :: "float32 option"
  temp_sense_writes :: "float32 option"
  dht_fahrenheit :: c_int
  dht_humidity :: c_int
  soil_read :: float32
  gga :: gga_writes

definition store :: "'a option \<Rightarrow> 'a \<Rightarrow> 'a" where
  "store w old = (case w of None \<Rightarrow> old | Some v \<Rightarrow> v)"

datatype event =
    Timer_start | Gps_setting
  | Vol | Temp_sense | Dht_read | Dht_getFahrenheit | Dht_getHumidity | Soil_read
  | Gga_sensing | Comms_printf string | Wait float32

subsection \<open>One iteration of the loop\<close>

text \<open>The eight arguments of the one \<^verbatim>\<open>printf\<close> call, the device identifier being constant.\<close>

record telemetry_record =
  ambient_temp :: float32
  humidity :: float32
  soil_moisture :: float32
  soil_temp :: float32
  wind_speed :: float32
  longitude :: float32
  latitude :: float32

definition encode :: "telemetry_record \<Rightarrow> printf_error + string" where
  "encode r =
     printf_fmt telemetry_format
       [Arg_str kDeviceId,
        Arg_double (ambient_temp r),
        Arg_double (humidity r),
        Arg_double (soil_moisture r),
        Arg_double (soil_temp r),
        Arg_double (wind_speed r),
        Arg_double (longitude r),
        Arg_double (latitude r)]"

text \<open>The statements of the loop body up to the \<^verbatim>\<open>printf\<close> call: the variables afterwards.\<close>

definition read_sensors :: "main_vars \<Rightarrow> cycle_env \<Rightarrow> main_vars" where
  "read_sensors s env =
     (let g = gga env;
          ambient_temp_f_int = dht_fahrenheit env;
          humidity_int = dht_humidity env
      in s \<lparr> battery_voltage_v := store (vol_writes env) (battery_voltage_v s),
             board_temp_c := store (temp_sense_writes env) (board_temp_c s),
             ambient_temp_c :=
               f32_div (f32_sub (f32_of_int (sint ambient_temp_f_int)) (f32 32)) (f32 (18 / 10)),
             relative_humidity_percent := f32_of_int (sint humidity_int),
             gps_time_utc := store (w_time_utc g) (gps_time_utc s),
             gps_latitude_deg := store (w_latitude_deg g) (gps_latitude_deg s),
             gps_ns_indicator := store (w_ns_indicator g) (gps_ns_indicator s),
             gps_longitude_deg := store (w_longitude_deg g) (gps_longitude_deg s),
             gps_ew_indicator := store (w_ew_indicator g) (gps_ew_indicator s),
             gps_quality_flag := store (w_quality_flag g) (gps_quality_flag s),
             gps_sat_count := store (w_sat_count g) (gps_sat_count s),
             gps_horz_acc_m := store (w_horz_acc_m g) (gps_horz_acc_m s),
             gps_altitude_m := store (w_altitude_m g) (gps_altitude_m s),
             gps_alt_unit := store (w_alt_unit g) (gps_alt_unit s),
             gps_fix_check := store (w_fix_check g) (gps_fix_check s) \<rparr>)"

text \<open>The arguments handed to \<^verbatim>\<open>printf\<close>; \<^verbatim>\<open>soil_moisture_percent\<close> is a local of the body.\<close>

definition sample :: "main_vars \<Rightarrow> cycle_env \<Rightarrow> telemetry_record" where
  "sample s env =
     (let s' = read_sensors s env;
          soil_moisture_percent = f32_mul (soil_read env) (f32 100)
      in \<lparr> ambient_temp = ambient_temp_c s',
           humidity = relative_humidity_percent s',
           soil_moisture = soil_moisture_percent,
           soil_temp = board_temp_c s',
           wind_speed = kDummyWindSpeedMs,
           longitude = gps_longitude_deg s',
           latitude = gps_latitude_deg s' \<rparr>)"

definition loop_body :: "main_vars \<Rightarrow> cycle_env \<Rightarrow> printf_error + event list \<times> main_vars" where
  "loop_body s env =
     (case encode (sample s env) of
        Inl e \<Rightarrow> Inl e
      | Inr line \<Rightarrow>
          Inr ([Vol, Temp_sense, Dht_read, Dht_getFahrenheit, Dht_getHumidity, Soil_read,
                Gga_sensing, Comms_printf line, Wait (f32 1)],
               read_sensors s env))"

subsection \<open>The loop\<close>

text \<open>
  \<^verbatim>\<open>while (true)\<close>, run for a number of iterations: the condition is tested, the body is
  run on the variables the iteration before has left, iteration \<open>k\<close> meeting the
  collaborators' behaviour \<open>envs k\<close>, and the events are appended to those so far.  The
  loop would have \<open>Returned\<close> where its condition were false, and has \<open>Failed\<close> where
  \<^verbatim>\<open>printf\<close> has; after the given number of iterations it is \<open>Still_running\<close>.  The
  program never ends if and only if it is \<open>Still_running\<close> after every number of
  iterations.
\<close>

datatype outcome =
    Returned "event list"
  | Failed printf_error "event list"
  | Still_running "event list" main_vars

primrec main_loop ::
  "nat \<Rightarrow> main_vars \<Rightarrow> (nat \<Rightarrow> cycle_env) \<Rightarrow> nat \<Rightarrow> event list \<Rightarrow> outcome"
where
  "main_loop 0 s envs k tr = Still_running tr s"
| "main_loop (Suc n) s envs k tr =
     (if True then
        (case loop_body s (envs k) of
           Inl e \<Rightarrow> Failed e tr
         | Inr (evs, s') \<Rightarrow> main_loop n s' envs (Suc k) (tr @ evs))
      else Returned tr)"

definition main :: "nat \<Rightarrow> (nat \<Rightarrow> cycle_env) \<Rightarrow> outcome" where
  "main n envs = main_loop n main_init envs 0 [Timer_start, Gps_setting]"

text \<open>The first iterations of the loop, one for each element of the list.\<close>

fun iterations :: "main_vars \<Rightarrow> cycle_env list \<Rightarrow> printf_error + event list \<times> main_vars" where
  "iterations s [] = Inr ([], s)"
| "iterations s (env # envs) =
     (case loop_body s env of
        Inl e \<Rightarrow> Inl e
      | Inr (evs, s') \<Rightarrow>
          (case iterations s' envs of
             Inl e \<Rightarrow> Inl e
           | Inr (evs', s'') \<Rightarrow> Inr (evs @ evs', s'')))"

section \<open>Reading a line\<close>

text \<open>
  The receiver's view of a transmitted line, used to state what a line contains: the text
  before the closing CR LF is cut at every comma, and every piece at its first \<open>=\<close>.
\<close>

fun split_on :: "char \<Rightarrow> string \<Rightarrow> string list" where
  "split_on c [] = [[]]"
| "split_on c (x # xs) =
     (if x = c then [] # split_on c xs
      else (case split_on c xs of [] \<Rightarrow> [[x]] | w # ws \<Rightarrow> (x # w) # ws))"

definition key_value :: "string \<Rightarrow> string \<times> string" where
  "key_value f = (takeWhile (\<lambda>c. c \<noteq> CHR ''='') f, drop 1 (dropWhile (\<lambda>c. c \<noteq> CHR ''='') f))"

definition line_fields :: "string \<Rightarrow> (string \<times> string) list option" where
  "line_fields l =
     (if 2 \<le> length l \<and> drop (length l - 2) l = [CHR 0x0D, CHR 0x0A]
      then Some (map key_value (split_on CHR '','' (take (length l - 2) l)))
      else None)"

definition is_digit :: "char \<Rightarrow> bool" where
  "is_digit c = (c \<in> set ''0123456789'')"

text \<open>
  A decimal numeral with exactly \<open>p\<close> digits after the point: an optional minus sign, at
  least one digit, the point, and \<open>p\<close> digits.
\<close>

definition is_fixed_decimal :: "nat \<Rightarrow> string \<Rightarrow> bool" where
  "is_fixed_decimal p txt =
     (let body = (if take 1 txt = ''-'' then drop 1 txt else txt);
          ip = takeWhile is_digit body;
          rest = dropWhile is_digit body
      in ip \<noteq> [] \<and> take 1 rest = ''.'' \<and> length (drop 1 rest) = p \<and>
         list_all is_digit (drop 1 rest))"

definition is_ascii :: "char \<Rightarrow> bool" where
  "is_ascii c = (of_char c < (128 :: nat))"

text \<open>The lines handed to the serial link in a piece of a run, in order.\<close>

fun printed :: "event list \<Rightarrow> string list" where
  "printed [] = []"
| "printed (Comms_printf l # evs) = l # printed evs"
| "printed (e # evs) = printed evs"

text \<open>The characters a converted number can consist of.\<close>

definition numeric_char :: "char \<Rightarrow> bool" where
  "numeric_char c = (c \<in> set ''0123456789-.nanif'')"

text \<open>
  The line as the interface description words it: the fields in the fixed order, each as
  \<open>key=value\<close>, joined by commas, closed by CR LF.
\<close>

fun join_fields :: "(string \<times> string) list \<Rightarrow> string" where
  "join_fields [] = []"
| "join_fields [(k, v)] = k @ ''='' @ v"
| "join_fields ((k, v) # kv # kvs) = k @ ''='' @ v @ '','' @ join_fields (kv # kvs)"

definition record_fields :: "telemetry_record \<Rightarrow> (string \<times> string) list" where
  "record_fields r =
     [(''device_id'', ''MIZU_0001''),
      (''ambient_temp'', fmt_fixed 2 (ambient_temp r)),
      (''humidity'', fmt_fixed 2 (humidity r)),
      (''soil_moisture'', fmt_fixed 1 (soil_moisture r)),
      (''soil_temp'', fmt_fixed 1 (soil_temp r)),
      (''wind_speed'', fmt_fixed 1 (wind_speed r)),
      (''longitude'', fmt_fixed 6 (longitude r)),
      (''latitude'', fmt_fixed 6 (latitude r))]"

definition wire_line :: "telemetry_record \<Rightarrow> string" where
  "wire_line r = join_fields (record_fields r) @ [CHR 0x0D, CHR 0x0A]"

definition field_of :: "string \<Rightarrow> string \<Rightarrow> string option" where
  "field_of l key = (case line_fields l of None \<Rightarrow> None | Some fs \<Rightarrow> map_of fs key)"

definition clean_field :: "string \<times> string \<Rightarrow> bool" where
  "clean_field kv =
     (CHR '','' \<notin> set (fst kv) \<and> CHR ''='' \<notin> set (fst kv) \<and> CHR '','' \<notin> set (snd kv))"

definition line_char :: "char \<Rightarrow> bool" where
  "line_char c = (is_ascii c \<and> c \<noteq> CHR 0x0D \<and> c \<noteq> CHR 0x0A)"

text \<open>
  A well-formed line: closed by CR LF, before that only ASCII characters other than CR and
  LF, the eight keys in their order, and every number with the digits after the point
  that its field has.
\<close>

definition well_formed_line :: "string \<Rightarrow> bool" where
  "well_formed_line l =
     (case line_fields l of
        None \<Rightarrow> False
      | Some fs \<Rightarrow>
          map fst fs =
            [''device_id'', ''ambient_temp'', ''humidity'', ''soil_moisture'', ''soil_temp'',
             ''wind_speed'', ''longitude'', ''latitude''] \<and>
          list_all2 is_fixed_decimal [2, 2, 1, 1, 1, 6, 6] (map snd (tl fs)) \<and>
          list_all line_char (take (length l - 2) l))"

definition finite_record :: "telemetry_record \<Rightarrow> bool" where
  "finite_record r =
     (is_finite (ambient_temp r) \<and> is_finite (humidity r) \<and> is_finite (soil_moisture r) \<and>
      is_finite (soil_temp r) \<and> is_finite (wind_speed r) \<and> is_finite (longitude r) \<and>
      is_finite (latitude r))"

text \<open>What one iteration hands to the serial link, and the variables it leaves.\<close>

definition emitted :: "main_vars \<Rightarrow> cycle_env \<Rightarrow> string list" where
  "emitted s env = (case loop_body s env of Inl e \<Rightarrow> [] | Inr (evs, s') \<Rightarrow> printed evs)"

definition emitted_field :: "main_vars \<Rightarrow> cycle_env \<Rightarrow> string \<Rightarrow> string option" where
  "emitted_field s env key = (case emitted s env of [l] \<Rightarrow> field_of l key | _ \<Rightarrow> None)"

definition vars_after :: "main_vars \<Rightarrow> cycle_env \<Rightarrow> main_vars" where
  "vars_after s env = (case loop_body s env of Inl e \<Rightarrow> s | Inr (evs, s') \<Rightarrow> s')"

text \<open>The events of one iteration, and of the iterations a list of behaviours stands for.\<close>

definition cycle_events :: "telemetry_record \<Rightarrow> event list" where
  "cycle_events r =
     [Vol, Temp_sense, Dht_read, Dht_getFahrenheit, Dht_getHumidity, Soil_read, Gga_sensing,
      Comms_printf (wire_line r), Wait (Finite False 1)]"

fun cycles_trace :: "main_vars \<Rightarrow> cycle_env list \<Rightarrow> event list" where
  "cycles_trace s [] = []"
| "cycles_trace s (env # envs) =
     cycle_events (sample s env) @ cycles_trace (read_sensors s env) envs"

text \<open>
  The variables that reach a later line, and two behaviours of the drivers that differ at
  most in the voltage and in the outputs of the GPS driver other than latitude and
  longitude.
\<close>

definition published_vars :: "main_vars \<Rightarrow> float32 \<times> float32 \<times> float32" where
  "published_vars s = (board_temp_c s, gps_latitude_deg s, gps_longitude_deg s)"

definition agree :: "cycle_env \<Rightarrow> cycle_env \<Rightarrow> bool" where
  "agree e1 e2 =
     (temp_sense_writes e1 = temp_sense_writes e2 \<and>
      dht_fahrenheit e1 = dht_fahrenheit e2 \<and>
      dht_humidity e1 = dht_humidity e2 \<and>
      soil_read e1 = soil_read e2 \<and>
      w_latitude_deg (gga e1) = w_latitude_deg (gga e2) \<and>
      w_longitude_deg (gga e1) = w_longitude_deg (gga e2))"

section \<open>Collaborator behaviours used as examples\<close>

text \<open>
  Every driver reports: 3.7 V, 22.1 degrees on the board, 77 degrees Fahrenheit and 60
  percent, a soil fraction of 0.458, and a valid fix at 37.7749 N, 122.4194 W.
\<close>

definition example_env :: cycle_env where
  "example_env =
     \<lparr> vol_writes = Some (f32 (37 / 10)),
       temp_sense_writes = Some (f32 (221 / 10)),
       dht_fahrenheit = 77,
       dht_humidity = 60,
       soil_read = f32 (458 / 1000),
       gga = \<lparr> w_time_utc = None,
               w_latitude_deg = Some (f32 (377749 / 10000)),
               w_ns_indicator = Some CHR ''N'',
               w_longitude_deg = Some (f32 (- (1224194 / 10000))),
               w_ew_indicator = Some CHR ''W'',
               w_quality_flag = None,
               w_sat_count = None,
               w_horz_acc_m = None,
               w_altitude_m = None,
               w_alt_unit = None,
               w_fix_check = Some 1 \<rparr> \<rparr>"

text \<open>The readings of that example that reach the line, for any behaviour showing them.\<close>

definition example_readings :: "cycle_env \<Rightarrow> bool" where
  "example_readings env =
     (temp_sense_writes env = Some (f32 (221 / 10)) \<and>
      dht_fahrenheit env = 77 \<and>
      dht_humidity env = 60 \<and>
      soil_read env = f32 (458 / 1000) \<and>
      w_latitude_deg (gga env) = Some (f32 (377749 / 10000)) \<and>
      w_longitude_deg (gga env) = Some (f32 (- (1224194 / 10000))))"

text \<open>No driver stores anything; the drivers that return a value return the same as above.\<close>

definition silent_env :: cycle_env where
  "silent_env =
     \<lparr> vol_writes = None,
       temp_sense_writes = None,
       dht_fahrenheit = 77,
       dht_humidity = 60,
       soil_read = f32 (458 / 1000),
       gga = \<lparr> w_time_utc = None, w_latitude_deg = None, w_ns_indicator = None,
               w_longitude_deg = None, w_ew_indicator = None, w_quality_flag = None,
               w_sat_count = None, w_horz_acc_m = None, w_altitude_m = None,
               w_alt_unit = None, w_fix_check = None \<rparr> \<rparr>"

text \<open>As \<open>example_env\<close>, but the board temperature driver stores a NaN.\<close>

definition nan_env :: cycle_env where
  "nan_env = example_env \<lparr> temp_sense_writes := Some (NaN False) \<rparr>"


declare dec.simps [simp del]

section \<open>Properties of the model\<close>

subsection \<open>Splitting, and the digits of a number\<close>

lemma split_on_none: "c \<notin> set xs \<Longrightarrow> split_on c xs = [xs]"
  by (induction xs) auto

lemma split_on_first: "c \<notin> set xs \<Longrightarrow> split_on c (xs @ c # ys) = xs # split_on c ys"
  by (induction xs) auto

lemma key_value_eq:
  assumes "CHR ''='' \<notin> set k"
  shows "key_value (k @ CHR ''='' # v) = (k, v)"
proof -
  have a: "\<forall>x\<in>set k. x \<noteq> CHR ''=''" using assms by auto
  have t: "takeWhile (\<lambda>c. c \<noteq> CHR ''='') (k @ CHR ''='' # v) = k"
    using a by (induction k) auto
  have d: "dropWhile (\<lambda>c. c \<noteq> CHR ''='') (k @ CHR ''='' # v) = CHR ''='' # v"
    using a by (induction k) auto
  show ?thesis by (simp add: key_value_def t d)
qed

lemma digit_char_is_digit: "is_digit (digit_char d)"
proof -
  have "d mod 10 < length ''0123456789''" by simp
  then have "''0123456789'' ! (d mod 10) \<in> set ''0123456789''" by (rule nth_mem)
  then show ?thesis by (simp only: is_digit_def digit_char_def)
qed

lemma dec_digits: "list_all is_digit (dec n)"
proof (induction n rule: dec.induct)
  case (1 n)
  show ?case
  proof (cases "n < 10")
    case True
    then show ?thesis by (subst dec.simps) (simp add: digit_char_is_digit)
  next
    case False
    with 1 show ?thesis by (subst dec.simps) (simp add: digit_char_is_digit)
  qed
qed

lemma frac_digits_digits: "list_all is_digit (frac_digits p n)"
  by (induction p arbitrary: n) (simp_all add: digit_char_is_digit)

lemma is_digit_numeric: "is_digit c \<Longrightarrow> numeric_char c"
  by (auto simp: is_digit_def numeric_char_def)

lemma fmt_fixed_chars: "list_all numeric_char (fmt_fixed p x)"
proof (cases x)
  case (Finite s m)
  have d: "list_all numeric_char (dec i)" for i
    using dec_digits [of i] by (auto simp: list_all_iff is_digit_numeric)
  have f: "list_all numeric_char (frac_digits q i)" for q i
    using frac_digits_digits [of q i] by (auto simp: list_all_iff is_digit_numeric)
  have c: "numeric_char CHR ''-''" "numeric_char CHR ''.''"
    by (simp_all add: numeric_char_def)
  show ?thesis by (simp add: Finite Let_def d f c)
next
  case (Infinity s)
  then show ?thesis by (simp add: numeric_char_def)
next
  case (NaN s)
  then show ?thesis by (simp add: numeric_char_def)
qed

lemma numeric_char_simps:
  "\<not> numeric_char CHR '',''" "\<not> numeric_char CHR ''=''" "\<not> numeric_char (CHR 0x0D)"
  "\<not> numeric_char (CHR 0x0A)"
  by (simp_all add: numeric_char_def)

lemma numeric_ascii: "numeric_char c \<Longrightarrow> is_ascii c"
  by (auto simp: numeric_char_def is_ascii_def)

lemma dec_not_Nil: "dec n \<noteq> []"
  by (subst dec.simps) simp

lemma length_frac_digits: "length (frac_digits p n) = p"
  by (induction p arbitrary: n) simp_all

lemma not_digit_point: "\<not> is_digit CHR ''.''"
  by (simp add: is_digit_def)

lemma not_digit_minus: "\<not> is_digit CHR ''-''"
  by (simp add: is_digit_def)

lemma unsigned_fixed:
  assumes "0 < p"
  shows "takeWhile is_digit (dec i @ ''.'' @ frac_digits p f) = dec i"
    and "dropWhile is_digit (dec i @ ''.'' @ frac_digits p f) = ''.'' @ frac_digits p f"
  using dec_digits [of i] not_digit_point
  by (simp_all add: takeWhile_append2 dropWhile_append2 list_all_iff takeWhile_tail dropWhile_append3)

lemma hd_dec_digit: "take 1 (dec i @ xs) \<noteq> ''-''"
proof -
  obtain c cs where d: "dec i = c # cs" using dec_not_Nil [of i] by (cases "dec i") auto
  have "is_digit c" using dec_digits [of i] by (simp add: d)
  then have "c \<noteq> CHR ''-''" using not_digit_minus by auto
  then show ?thesis by (simp add: d)
qed

lemma fmt_fixed_shape:
  assumes "0 < p"
  shows "is_fixed_decimal p (fmt_fixed p (Finite s m))"
proof -
  define n where "n = nat (round_half_even (\<bar>m\<bar> * 10 ^ p))"
  define body where "body = dec (n div 10 ^ p) @ ''.'' @ frac_digits p (n mod 10 ^ p)"
  have f: "fmt_fixed p (Finite s m) = (if s then ''-'' else '''') @ body"
    using assms by (simp add: n_def body_def Let_def)
  have b: "(if take 1 (fmt_fixed p (Finite s m)) = ''-'' then drop 1 (fmt_fixed p (Finite s m))
            else fmt_fixed p (Finite s m)) = body"
  proof (cases s)
    case True
    then show ?thesis unfolding f by simp
  next
    case False
    then show ?thesis unfolding f using hd_dec_digit [of "n div 10 ^ p"] by (simp add: body_def)
  qed
  show ?thesis
    unfolding is_fixed_decimal_def b Let_def
    unfolding body_def unsigned_fixed [OF assms]
    by (simp add: dec_not_Nil length_frac_digits frac_digits_digits)
qed

subsection \<open>Rounding\<close>

lemma pow2_pos: "0 < pow2 k"
  by (simp add: pow2_def)

lemma pow2_powi: "pow2 k = 2 powi k"
  by (simp add: pow2_def power_int_def inverse_eq_divide power_one_over)

lemma pow2_add: "pow2 (j + k) = pow2 j * pow2 k"
  by (simp add: pow2_powi power_int_add)

lemma pow2_mono: "j \<le> k \<Longrightarrow> pow2 j \<le> pow2 k"
  by (simp add: pow2_powi power_int_increasing)

lemma pow2_less_cancel: "pow2 j < pow2 k \<Longrightarrow> j < k"
  using pow2_mono [of k j] by (cases "j < k") auto

lemma pow2_nat: "0 \<le> k \<Longrightarrow> pow2 k = of_int (2 ^ nat k)"
  by (simp add: pow2_def)

lemma round_half_even_of_int: "round_half_even (of_int k) = k"
  by (simp add: round_half_even_def)

lemma round_half_even_le:
  assumes "x \<le> of_int k" shows "round_half_even x \<le> k"
proof -
  have f: "\<lfloor>x\<rfloor> \<le> k" using assms by (simp add: floor_le_iff)
  show ?thesis
  proof (cases "\<lfloor>x\<rfloor> = k")
    case True
    then have "x - of_int \<lfloor>x\<rfloor> \<le> 0" using assms by simp
    then show ?thesis using True by (simp add: round_half_even_def Let_def)
  next
    case False
    with f have "\<lfloor>x\<rfloor> + 1 \<le> k" by simp
    then show ?thesis using f by (simp add: round_half_even_def Let_def)
  qed
qed

lemma round_half_even_ge:
  assumes "of_int k \<le> x" shows "k \<le> round_half_even x"
proof -
  have "k \<le> \<lfloor>x\<rfloor>" using assms by (simp add: le_floor_iff)
  then show ?thesis by (simp add: round_half_even_def Let_def)
qed

lemma find_exp_range: "- 126 \<le> find_exp n a \<and> find_exp n a \<le> int n - 126"
  by (induction n) auto

lemma find_exp_le:
  assumes "a < pow2 (e + 1)" "- 126 \<le> e"
  shows "find_exp n a \<le> e"
proof (induction n)
  case 0
  then show ?case using assms by simp
next
  case (Suc n)
  show ?case
  proof (cases "pow2 (int (Suc n) - 126) \<le> a")
    case True
    then have "pow2 (int (Suc n) - 126) < pow2 (e + 1)" using assms by simp
    then have "int (Suc n) - 126 < e + 1" by (rule pow2_less_cancel)
    then show ?thesis using True by simp
  next
    case False
    then show ?thesis using Suc by simp
  qed
qed

lemma find_exp_ge:
  assumes "pow2 e \<le> a" "e \<le> int n - 126"
  shows "e \<le> find_exp n a"
  using assms
proof (induction n)
  case 0
  then show ?case by simp
next
  case (Suc n)
  show ?case
  proof (cases "pow2 (int (Suc n) - 126) \<le> a")
    case True
    then show ?thesis using Suc.prems by simp
  next
    case False
    then have "e \<noteq> int (Suc n) - 126" using Suc.prems by auto
    then have "e \<le> int n - 126" using Suc.prems by simp
    then show ?thesis using False Suc by simp
  qed
qed

text \<open>Rounding never passes a number of the grid it rounds to.\<close>

lemma round_grid_le:
  assumes "a \<le> b" "b = of_int k * ulp32 a"
  shows "of_int (round_half_even (a / ulp32 a)) * ulp32 a \<le> b"
proof -
  have u: "0 < ulp32 a" by (simp add: ulp32_def pow2_pos)
  have "a / ulp32 a \<le> of_int k" using assms u by (simp add: pos_divide_le_eq)
  then have "round_half_even (a / ulp32 a) \<le> k" by (rule round_half_even_le)
  then have "(of_int (round_half_even (a / ulp32 a)) :: rat) \<le> of_int k" by simp
  then show ?thesis using u assms by (simp add: mult_right_mono)
qed

lemma round_grid_ge:
  assumes "b \<le> a" "b = of_int k * ulp32 a"
  shows "b \<le> of_int (round_half_even (a / ulp32 a)) * ulp32 a"
proof -
  have u: "0 < ulp32 a" by (simp add: ulp32_def pow2_pos)
  have "of_int k \<le> a / ulp32 a" using assms u by (simp add: pos_le_divide_eq)
  then have "k \<le> round_half_even (a / ulp32 a)" by (rule round_half_even_ge)
  then have "(of_int k :: rat) \<le> of_int (round_half_even (a / ulp32 a))" by simp
  then show ?thesis using u assms by (simp add: mult_right_mono)
qed

lemma round_grid_exact:
  assumes "a = of_int k * ulp32 a"
  shows "of_int (round_half_even (a / ulp32 a)) * ulp32 a = a"
  using round_grid_le [OF order_refl assms] round_grid_ge [OF order_refl assms] by simp

lemma round32_squeeze:
  assumes "of_int L \<le> a" "a \<le> of_int B" "0 \<le> L" "B < 2 ^ 24"
  shows "\<exists>r. round32 s a = Finite s r \<and> of_int L \<le> r \<and> r \<le> of_int B"
proof -
  define e where "e = find_exp 253 a"
  have a0: "0 \<le> a" using assms by (meson of_int_0_le_iff order_trans)
  have "(of_int B :: rat) < of_int (2 ^ 24)" using assms(4) by (simp only: of_int_less_iff)
  then have "a < pow2 (23 + 1)" using assms(2) by (simp add: pow2_def)
  then have e_le: "e \<le> 23" unfolding e_def by (rule find_exp_le) simp
  have u: "ulp32 a = pow2 (e - 23)" by (simp add: ulp32_def e_def)
  have "pow2 (23 - e) * pow2 (e - 23) = pow2 0" by (simp add: pow2_add [symmetric])
  then have one: "pow2 (23 - e) * ulp32 a = 1" by (simp add: u pow2_def)
  have pn: "pow2 (23 - e) = of_int (2 ^ nat (23 - e))" using e_le by (simp add: pow2_nat)
  have grid: "of_int k = of_int (k * 2 ^ nat (23 - e)) * ulp32 a" for k
  proof -
    have "of_int (k * 2 ^ nat (23 - e)) * ulp32 a = of_int k * (pow2 (23 - e) * ulp32 a)"
      by (simp add: pn)
    then show ?thesis by (simp add: one)
  qed
  define r where "r = of_int (round_half_even (a / ulp32 a)) * ulp32 a"
  have lo: "of_int L \<le> r" unfolding r_def using assms(1) grid [of L] by (rule round_grid_ge)
  have hi: "r \<le> of_int B" unfolding r_def using assms(2) grid [of B] by (rule round_grid_le)
  have "r < of_int (2 ^ 24)" using hi \<open>(of_int B :: rat) < of_int (2 ^ 24)\<close> by simp
  then have "\<not> pow2 128 \<le> r" by (simp add: pow2_def)
  then have "round32 s a = Finite s r" by (simp add: round32_def r_def Let_def)
  then show ?thesis using lo hi by blast
qed

lemma round32_small_int:
  assumes "0 \<le> j" "j < 2 ^ 24"
  shows "round32 s (of_int j) = Finite s (of_int j)"
  using round32_squeeze [of j "of_int j" j s] assms by auto

lemma round32_integral:
  assumes "0 \<le> j" "j \<le> 2 ^ 31"
  shows "\<exists>k. 0 \<le> k \<and> round32 s (of_int j) = Finite s (of_int k)"
proof (cases "j < 2 ^ 24")
  case True
  then show ?thesis using round32_small_int [OF assms(1) True] assms(1) by blast
next
  case False
  define a :: rat where "a = of_int j"
  define e where "e = find_exp 253 a"
  have "(of_int (2 ^ 24) :: rat) \<le> of_int j" using False by (simp only: of_int_le_iff)
  then have "pow2 24 \<le> a" by (simp add: pow2_def a_def)
  then have e_ge: "24 \<le> e" unfolding e_def by (rule find_exp_ge) simp
  have "(of_int j :: rat) \<le> of_int (2 ^ 31)" using assms(2) by (simp only: of_int_le_iff)
  then have a31: "a \<le> pow2 31" by (simp add: pow2_def a_def)
  then have "a < pow2 (31 + 1)" by (simp add: pow2_def)
  then have e_le: "e \<le> 31" unfolding e_def by (rule find_exp_le) simp
  have u: "ulp32 a = pow2 (e - 23)" by (simp add: ulp32_def e_def)
  have un: "ulp32 a = of_int (2 ^ nat (e - 23))" using e_ge by (simp add: u pow2_nat)
  have upos: "0 < ulp32 a" by (simp add: u pow2_pos)
  define n where "n = round_half_even (a / ulp32 a)"
  define r where "r = of_int n * ulp32 a"
  have "(of_int 0 :: rat) \<le> a / ulp32 a" using upos assms(1) by (simp add: a_def)
  then have n0: "0 \<le> n" unfolding n_def by (rule round_half_even_ge)
  have "pow2 (54 - e) * pow2 (e - 23) = pow2 31" by (simp add: pow2_add [symmetric])
  moreover have "pow2 (54 - e) = of_int (2 ^ nat (54 - e))" using e_le by (simp add: pow2_nat)
  ultimately have "pow2 31 = of_int (2 ^ nat (54 - e)) * ulp32 a" by (simp add: u)
  with a31 have "r \<le> pow2 31" unfolding r_def n_def by (rule round_grid_le)
  moreover have "pow2 31 < pow2 128" by (simp add: pow2_def)
  ultimately have "\<not> pow2 128 \<le> r" by simp
  then have "round32 s a = Finite s r" by (simp add: round32_def r_def n_def Let_def)
  moreover have "r = of_int (n * 2 ^ nat (e - 23))" by (simp add: r_def un)
  moreover have "0 \<le> n * 2 ^ nat (e - 23)" using n0 by simp
  ultimately show ?thesis unfolding a_def by blast
qed

lemma f32_of_int_small:
  assumes "\<bar>i\<bar> < 2 ^ 24"
  shows "f32_of_int i = Finite (i < 0) (of_int \<bar>i\<bar>)"
proof -
  have "round32 (i < 0) (of_int \<bar>i\<bar>) = Finite (i < 0) (of_int \<bar>i\<bar>)"
    using assms by (intro round32_small_int) auto
  then show ?thesis by (simp add: f32_of_int_def f32_def)
qed

lemma f32_of_int_integral:
  assumes "- (2 ^ 31) \<le> i" "i < 2 ^ 31"
  shows "\<exists>k. 0 \<le> k \<and> f32_of_int i = Finite (i < 0) (of_int k)"
proof -
  have "\<exists>k. 0 \<le> k \<and> round32 (i < 0) (of_int \<bar>i\<bar>) = Finite (i < 0) (of_int k)"
    using assms by (intro round32_integral) auto
  then show ?thesis by (simp add: f32_of_int_def f32_def)
qed

lemma f32_of_sint_integral:
  "\<exists>k. 0 \<le> k \<and> f32_of_int (sint (w :: 32 word)) = Finite (sint w < 0) (of_int k)"
proof (rule f32_of_int_integral)
  show "- (2 ^ 31) \<le> sint w" using sint_ge [of w] by simp
  show "sint w < 2 ^ 31" using sint_lt [of w] by simp
qed

subsection \<open>Evaluation at numerals\<close>

lemma floor_rat_numeral: "\<lfloor>(numeral a / numeral b :: rat)\<rfloor> = numeral a div numeral b"
  using floor_divide_of_int_eq [of "numeral a" "numeral b", where ?'a = rat] by simp

lemma dec_eval:
  "dec (numeral k) =
     (if numeral k < (10::nat) then [digit_char (numeral k)]
      else dec (numeral k div 10) @ [digit_char (numeral k mod 10)])"
  "dec 0 = ''0''"
  "dec (Suc 0) = ''1''"
  by (subst dec.simps, simp add: digit_char_def)+

lemma find_exp_numeral:
  "find_exp (numeral k) a =
     (if pow2 (int (numeral k) - 126) \<le> a then int (numeral k) - 126
      else find_exp (pred_numeral k) a)"
proof -
  have n: "numeral k = Suc (pred_numeral k)" by (rule numeral_eq_Suc)
  show ?thesis by (subst (1 2 3) n) (rule find_exp.simps(2))
qed

lemma frac_digits_numeral:
  "frac_digits (numeral p) n = frac_digits (pred_numeral p) (n div 10) @ [digit_char (n mod 10)]"
  by (subst numeral_eq_Suc) (rule frac_digits.simps(2))

lemmas f32_eval = f32_def round32_def ulp32_def pow2_def round_half_even_def Let_def
  floor_rat_numeral find_exp_numeral

lemmas fmt_eval = round_half_even_def Let_def floor_rat_numeral dec_eval digit_char_def
  frac_digits_numeral

lemma frac_digits_zero2: "frac_digits 2 0 = ''00''"
  by (simp add: frac_digits_numeral digit_char_def)

lemma fmt_fixed_2_integral:
  assumes "0 \<le> k"
  shows "fmt_fixed 2 (Finite s (of_int k)) = (if s then ''-'' else '''') @ dec (nat k) @ ''.00''"
proof -
  have "\<bar>of_int k\<bar> * 10 ^ 2 = (of_int (k * 100) :: rat)" using assms by simp
  then have "round_half_even (\<bar>of_int k\<bar> * 10 ^ 2) = k * 100"
    by (simp only: round_half_even_of_int)
  moreover have "nat (k * 100) = nat k * 100" using assms by (simp add: nat_mult_distrib)
  ultimately have n: "nat (round_half_even (\<bar>of_int k\<bar> * 10 ^ 2)) = nat k * 100" by simp
  show ?thesis
    by (simp only: fmt_fixed.simps n Let_def) (simp add: frac_digits_zero2)
qed


lemma round_half_even_error: "\<bar>of_int (round_half_even x) - x\<bar> \<le> 1 / 2"
proof -
  have "of_int \<lfloor>x\<rfloor> \<le> x" "x < of_int \<lfloor>x\<rfloor> + 1" by linarith+
  then show ?thesis by (auto simp: round_half_even_def Let_def abs_le_iff)
qed

lemma round_grid_error:
  "\<bar>of_int (round_half_even (a / ulp32 a)) * ulp32 a - a\<bar> \<le> ulp32 a / 2"
proof -
  have u: "0 < ulp32 a" by (simp add: ulp32_def pow2_pos)
  have "of_int (round_half_even (a / ulp32 a)) * ulp32 a - a
      = (of_int (round_half_even (a / ulp32 a)) - a / ulp32 a) * ulp32 a"
    using u by (simp add: algebra_simps)
  then have "\<bar>of_int (round_half_even (a / ulp32 a)) * ulp32 a - a\<bar>
      = \<bar>of_int (round_half_even (a / ulp32 a)) - a / ulp32 a\<bar> * ulp32 a"
    using u by (simp add: abs_mult)
  also have "\<dots> \<le> 1 / 2 * ulp32 a"
    using u round_half_even_error [of "a / ulp32 a"] by (intro mult_right_mono) auto
  finally show ?thesis by simp
qed

lemma round32_percent:
  assumes "0 \<le> a" "a \<le> 100"
  shows "\<exists>p. round32 sg a = Finite sg p \<and> 0 \<le> p \<and> p \<le> 100 \<and> \<bar>p - a\<bar> \<le> 1 / 2 ^ 18"
proof -
  define p where "p = of_int (round_half_even (a / ulp32 a)) * ulp32 a"
  have "\<exists>r. round32 sg a = Finite sg r \<and> of_int 0 \<le> r \<and> r \<le> of_int 100"
    using assms by (intro round32_squeeze) auto
  moreover have "round32 sg a = (if pow2 128 \<le> p then Infinity sg else Finite sg p)"
    by (simp add: round32_def p_def Let_def)
  ultimately have r: "round32 sg a = Finite sg p" "0 \<le> p" "p \<le> 100"
    by (auto split: if_splits)
  have "a < pow2 (6 + 1)" using assms by (simp add: pow2_def)
  then have "find_exp 253 a \<le> 6" by (rule find_exp_le) simp
  then have "ulp32 a \<le> pow2 (- 17)" unfolding ulp32_def by (intro pow2_mono) simp
  then have "ulp32 a / 2 \<le> 1 / 2 ^ 18" by (simp add: pow2_def)
  moreover have "\<bar>p - a\<bar> \<le> ulp32 a / 2" unfolding p_def by (rule round_grid_error)
  ultimately have "\<bar>p - a\<bar> \<le> 1 / 2 ^ 18" by simp
  with r show ?thesis by blast
qed

lemma f32_of_int_value:
  assumes "\<bar>i\<bar> < 2 ^ 24"
  shows "is_finite (f32_of_int i)" "valof (f32_of_int i) = of_int i"
  using f32_of_int_small [OF assms] by (simp_all add: valof_def)

subsection \<open>The line\<close>


lemma encode_wire_line: "encode r = Inr (wire_line r)"
  by (simp add: encode_def telemetry_format_def prepend_def digit_of_def wire_line_def
      record_fields_def kDeviceId_def)

lemma loop_body_eq:
  "loop_body s env =
     Inr ([Vol, Temp_sense, Dht_read, Dht_getFahrenheit, Dht_getHumidity, Soil_read, Gga_sensing,
           Comms_printf (wire_line (sample s env)), Wait (f32 1)],
          read_sensors s env)"
  by (simp add: loop_body_def encode_wire_line)

lemma split_join:
  assumes "list_all clean_field kvs" "kvs \<noteq> []"
  shows "split_on CHR '','' (join_fields kvs) = map (\<lambda>(k, v). k @ CHR ''='' # v) kvs"
  using assms
proof (induction kvs rule: join_fields.induct)
  case 1
  then show ?case by simp
next
  case (2 k v)
  then have "CHR '','' \<notin> set (k @ CHR ''='' # v)" by (simp add: clean_field_def)
  then have "split_on CHR '','' (k @ CHR ''='' # v) = [k @ CHR ''='' # v]" by (rule split_on_none)
  then show ?case by simp
next
  case (3 k v kv kvs)
  then have "CHR '','' \<notin> set (k @ CHR ''='' # v)" by (simp add: clean_field_def)
  then have "split_on CHR '','' ((k @ CHR ''='' # v) @ CHR '','' # join_fields (kv # kvs))
      = (k @ CHR ''='' # v) # split_on CHR '','' (join_fields (kv # kvs))"
    by (rule split_on_first)
  moreover have "split_on CHR '','' (join_fields (kv # kvs)) = map (\<lambda>(k, v). k @ CHR ''='' # v) (kv # kvs)"
    using 3 by simp
  ultimately show ?case by simp
qed

lemma key_value_join:
  assumes "list_all clean_field kvs"
  shows "map key_value (map (\<lambda>(k, v). k @ CHR ''='' # v) kvs) = kvs"
  using assms by (induction kvs) (auto simp: clean_field_def key_value_eq)

lemma line_fields_join:
  assumes "list_all clean_field kvs" "kvs \<noteq> []"
  shows "line_fields (join_fields kvs @ [CHR 0x0D, CHR 0x0A]) = Some kvs"
  using split_join [OF assms] key_value_join [OF assms(1)] by (simp add: line_fields_def)

lemma numeric_clean:
  assumes "list_all numeric_char v" shows "CHR '','' \<notin> set v" "CHR ''='' \<notin> set v"
    "CHR 0x0D \<notin> set v" "CHR 0x0A \<notin> set v"
  using assms numeric_char_simps by (auto simp: list_all_iff)

lemma record_fields_clean: "list_all clean_field (record_fields r)"
  by (simp add: record_fields_def clean_field_def numeric_clean [OF fmt_fixed_chars])

lemma line_fields_wire_line: "line_fields (wire_line r) = Some (record_fields r)"
  unfolding wire_line_def
  by (rule line_fields_join [OF record_fields_clean]) (simp add: record_fields_def)

lemma field_of_wire_line:
  "field_of (wire_line r) ''device_id'' = Some ''MIZU_0001''"
  "field_of (wire_line r) ''ambient_temp'' = Some (fmt_fixed 2 (ambient_temp r))"
  "field_of (wire_line r) ''humidity'' = Some (fmt_fixed 2 (humidity r))"
  "field_of (wire_line r) ''soil_moisture'' = Some (fmt_fixed 1 (soil_moisture r))"
  "field_of (wire_line r) ''soil_temp'' = Some (fmt_fixed 1 (soil_temp r))"
  "field_of (wire_line r) ''wind_speed'' = Some (fmt_fixed 1 (wind_speed r))"
  "field_of (wire_line r) ''longitude'' = Some (fmt_fixed 6 (longitude r))"
  "field_of (wire_line r) ''latitude'' = Some (fmt_fixed 6 (latitude r))"
  by (simp_all add: field_of_def line_fields_wire_line record_fields_def)

lemma join_fields_chars:
  assumes "list_all (\<lambda>kv. list_all P (fst kv) \<and> list_all P (snd kv)) kvs" "P CHR ''=''" "P CHR '',''"
  shows "list_all P (join_fields kvs)"
  using assms by (induction kvs rule: join_fields.induct) auto

lemma numeric_line_char: "numeric_char c \<Longrightarrow> line_char c"
  by (auto simp: numeric_char_def line_char_def is_ascii_def)

lemma wire_line_body_chars: "list_all line_char (join_fields (record_fields r))"
proof (rule join_fields_chars)
  have n: "list_all line_char (fmt_fixed p x)" for p x
    using fmt_fixed_chars [of p x] by (auto simp: list_all_iff numeric_line_char)
  show "list_all (\<lambda>kv. list_all line_char (fst kv) \<and> list_all line_char (snd kv)) (record_fields r)"
    by (simp add: record_fields_def n) (simp add: line_char_def is_ascii_def)
  show "line_char CHR ''=''" "line_char CHR '',''" by (simp_all add: line_char_def is_ascii_def)
qed

subsection \<open>The loop body and the loop\<close>


lemma f32_consts:
  "f32 1 = Finite False 1" "f32 32 = Finite False 32" "f32 100 = Finite False 100"
  "f32 (18 / 10) = Finite False (7549747 / 4194304)"
  "kDummyWindSpeedMs = Finite False (5452595 / 1048576)"
  by (simp_all add: kDummyWindSpeedMs_def f32_eval)

lemma wind_text: "fmt_fixed 1 kDummyWindSpeedMs = ''5.2''"
  by (simp add: f32_consts fmt_eval)


lemma store_simps: "store (Some v) old = v" "store None old = old"
  by (simp_all add: store_def)

lemma sample_fields:
  "ambient_temp (sample s env) =
     f32_div (f32_sub (f32_of_int (sint (dht_fahrenheit env))) (f32 32)) (f32 (18 / 10))"
  "humidity (sample s env) = f32_of_int (sint (dht_humidity env))"
  "soil_moisture (sample s env) = f32_mul (soil_read env) (f32 100)"
  "soil_temp (sample s env) = store (temp_sense_writes env) (board_temp_c s)"
  "wind_speed (sample s env) = kDummyWindSpeedMs"
  "longitude (sample s env) = store (w_longitude_deg (gga env)) (gps_longitude_deg s)"
  "latitude (sample s env) = store (w_latitude_deg (gga env)) (gps_latitude_deg s)"
  by (simp_all add: sample_def read_sensors_def Let_def)

lemma loop_body_events:
  "loop_body s env = Inr (cycle_events (sample s env), read_sensors s env)"
  by (simp add: loop_body_eq cycle_events_def f32_consts)

lemma emitted_eq: "emitted s env = [wire_line (sample s env)]"
  by (simp add: emitted_def loop_body_events cycle_events_def)

lemma vars_after_eq: "vars_after s env = read_sensors s env"
  by (simp add: vars_after_def loop_body_events)

lemma emitted_field_eq: "emitted_field s env key = field_of (wire_line (sample s env)) key"
  by (simp add: emitted_field_def emitted_eq)

lemma iterations_eq: "iterations s envs = Inr (cycles_trace s envs, foldl read_sensors s envs)"
  by (induction envs arbitrary: s) (simp_all add: loop_body_events)

lemma printed_cycle_events: "printed (cycle_events r @ evs) = wire_line r # printed evs"
  by (simp add: cycle_events_def)

lemma length_printed_cycles: "length (printed (cycles_trace s envs)) = length envs"
  by (induction envs arbitrary: s) (simp_all add: printed_cycle_events)

lemma printed_append: "printed (xs @ ys) = printed xs @ printed ys"
  by (induction xs rule: printed.induct) simp_all

lemma length_cycles_trace: "length (cycles_trace s envs) = 9 * length envs"
  by (induction envs arbitrary: s) (simp_all add: cycle_events_def)

lemma cycles_trace_snoc:
  "cycles_trace s (es @ [e]) =
     cycles_trace s es @ cycle_events (sample (foldl read_sensors s es) e)"
  by (induction es arbitrary: s) simp_all

text \<open>The loop after \<open>n\<close> iterations, in closed form and iteration by iteration.\<close>

lemma main_loop_eq:
  "main_loop n s envs k tr =
     Still_running (tr @ cycles_trace s (map envs [k..<k + n]))
       (foldl read_sensors s (map envs [k..<k + n]))"
proof (induction n arbitrary: s k tr)
  case 0
  then show ?case by simp
next
  case (Suc n)
  have u: "[k..<k + Suc n] = k # [Suc k..<Suc k + n]" by (simp add: upt_rec)
  have "main_loop (Suc n) s envs k tr =
      main_loop n (read_sensors s (envs k)) envs (Suc k) (tr @ cycle_events (sample s (envs k)))"
    by (simp add: loop_body_events)
  also have "\<dots> =
      Still_running
        ((tr @ cycle_events (sample s (envs k))) @
          cycles_trace (read_sensors s (envs k)) (map envs [Suc k..<Suc k + n]))
        (foldl read_sensors (read_sensors s (envs k)) (map envs [Suc k..<Suc k + n]))"
    by (rule Suc.IH)
  also have "\<dots> =
      Still_running (tr @ cycles_trace s (map envs (k # [Suc k..<Suc k + n])))
        (foldl read_sensors s (map envs (k # [Suc k..<Suc k + n])))"
    by simp
  finally show ?case unfolding u .
qed

lemma main_loop_Suc:
  "main_loop (Suc n) s envs k tr =
     (case main_loop n s envs k tr of
        Still_running tr' s' \<Rightarrow>
          Still_running (tr' @ cycle_events (sample s' (envs (k + n))))
            (read_sensors s' (envs (k + n)))
      | Returned tr' \<Rightarrow> Returned tr'
      | Failed e tr' \<Rightarrow> Failed e tr')"
proof -
  have u: "map envs [k..<k + Suc n] = map envs [k..<k + n] @ [envs (k + n)]" by simp
  show ?thesis
    unfolding main_loop_eq [of "Suc n"] main_loop_eq [of n] u cycles_trace_snoc
    by simp
qed

subsection \<open>The example readings\<close>

lemma example_values:
  "f32 (458 / 1000) = Finite False (7683965 / 16777216)"
  "f32 (221 / 10) = Finite False (11586765 / 524288)"
  "f32 (377749 / 10000) = Finite False (9902463 / 262144)"
  "f32 (- (1224194 / 10000)) = Finite True (4011439 / 32768)"
  "f32 (37 / 10) = Finite False (15518925 / 4194304)"
  by (simp_all add: f32_eval)

lemma seventy_seven:
  "f32_div (f32_sub (f32_of_int 77) (f32 32)) (f32 (18 / 10)) = Finite False 25"
  by (simp add: f32_consts) (simp add: f32_eval f32_of_int_def f32_sub_def valof_def)



lemma sixty: "f32_of_int 60 = Finite False 60"
  by (simp add: f32_eval f32_of_int_def)

lemma soil_example: "f32_mul (f32 (458 / 1000)) (f32 100) = Finite False (12006195 / 262144)"
  by (simp add: f32_consts example_values) (simp add: f32_eval)

lemma example_texts:
  "fmt_fixed 2 (Finite False 25) = ''25.00''"
  "fmt_fixed 2 (Finite False 60) = ''60.00''"
  "fmt_fixed 1 (Finite False (12006195 / 262144)) = ''45.8''"
  "fmt_fixed 1 (Finite False (11586765 / 524288)) = ''22.1''"
  "fmt_fixed 6 (Finite True (4011439 / 32768)) = ''-122.419403''"
  "fmt_fixed 6 (Finite False (9902463 / 262144)) = ''37.774899''"
  by (simp_all add: fmt_eval)

lemma example_texts_wind: "fmt_fixed 1 (Finite False (5452595 / 1048576)) = ''5.2''"
  by (simp add: fmt_eval)

lemma example_readings_example_env: "example_readings example_env"
  by (simp add: example_readings_def example_env_def)

lemma example_reads:
  assumes "example_readings env"
  shows "sint (dht_fahrenheit env) = 77"
    "sint (dht_humidity env) = 60"
    "soil_read env = f32 (458 / 1000)"
    "temp_sense_writes env = Some (f32 (221 / 10))"
    "w_longitude_deg (gga env) = Some (f32 (- (1224194 / 10000)))"
    "w_latitude_deg (gga env) = Some (f32 (377749 / 10000))"
  using assms by (simp_all add: example_readings_def)

lemma example_record:
  assumes "example_readings env"
  shows "ambient_temp (sample s env) = Finite False 25"
    "humidity (sample s env) = Finite False 60"
    "soil_moisture (sample s env) = Finite False (12006195 / 262144)"
    "soil_temp (sample s env) = Finite False (11586765 / 524288)"
    "wind_speed (sample s env) = Finite False (5452595 / 1048576)"
    "longitude (sample s env) = Finite True (4011439 / 32768)"
    "latitude (sample s env) = Finite False (9902463 / 262144)"
proof -
  note r = example_reads [OF assms]
  show "ambient_temp (sample s env) = Finite False 25"
    by (simp only: sample_fields r seventy_seven)
  show "humidity (sample s env) = Finite False 60"
    by (simp only: sample_fields r sixty)
  show "soil_moisture (sample s env) = Finite False (12006195 / 262144)"
    by (simp only: sample_fields r soil_example)
  show "soil_temp (sample s env) = Finite False (11586765 / 524288)"
    by (simp only: sample_fields r store_simps example_values)
  show "wind_speed (sample s env) = Finite False (5452595 / 1048576)"
    by (simp only: sample_fields f32_consts)
  show "longitude (sample s env) = Finite True (4011439 / 32768)"
    by (simp only: sample_fields r store_simps example_values)
  show "latitude (sample s env) = Finite False (9902463 / 262144)"
    by (simp only: sample_fields r store_simps example_values)
qed

lemma example_fields:
  "emitted_field s example_env ''ambient_temp'' = Some ''25.00''"
  "emitted_field s example_env ''humidity'' = Some ''60.00''"
  "emitted_field s example_env ''soil_moisture'' = Some ''45.8''"
  "emitted_field s example_env ''soil_temp'' = Some ''22.1''"
  "emitted_field s example_env ''wind_speed'' = Some ''5.2''"
  "emitted_field s example_env ''longitude'' = Some ''-122.419403''"
  "emitted_field s example_env ''latitude'' = Some ''37.774899''"
  by (simp_all only: emitted_field_eq field_of_wire_line
      example_record [OF example_readings_example_env] example_texts example_texts_wind)

lemma example_line:
  assumes "example_readings env"
  shows "wire_line (sample s env) =
    ''device_id=MIZU_0001,ambient_temp=25.00,humidity=60.00,soil_moisture=45.8,soil_temp=22.1,wind_speed=5.2,longitude=-122.419403,latitude=37.774899''
    @ [CHR 0x0D, CHR 0x0A]"
proof -
  have "record_fields (sample s env) =
      [(''device_id'', ''MIZU_0001''), (''ambient_temp'', ''25.00''), (''humidity'', ''60.00''),
       (''soil_moisture'', ''45.8''), (''soil_temp'', ''22.1''), (''wind_speed'', ''5.2''),
       (''longitude'', ''-122.419403''), (''latitude'', ''37.774899'')]"
    by (simp only: record_fields_def example_record [OF assms] example_texts example_texts_wind)
  then show ?thesis by (simp add: wire_line_def)
qed

subsection \<open>Well-formed lines\<close>

lemma fmt_fixed_finite:
  assumes "is_finite x" "0 < p"
  shows "is_fixed_decimal p (fmt_fixed p x)"
  using assms fmt_fixed_shape [OF assms(2)] by (cases x) simp_all

lemma nan_not_decimal: "\<not> is_fixed_decimal p ''nan''"
  by (simp add: is_fixed_decimal_def is_digit_def)

lemma not_decimal:
  "\<not> is_fixed_decimal p ''-nan''" "\<not> is_fixed_decimal p ''inf''" "\<not> is_fixed_decimal p ''-inf''"
  by (simp_all add: is_fixed_decimal_def is_digit_def)

lemma take_wire_line:
  "take (length (wire_line r) - 2) (wire_line r) = join_fields (record_fields r)"
  by (simp add: wire_line_def)

lemma well_formed_wire_line:
  "well_formed_line (wire_line r) \<longleftrightarrow>
     list_all2 is_fixed_decimal [2, 2, 1, 1, 1, 6, 6] (map snd (tl (record_fields r)))"
proof -
  have k: "map fst (record_fields r) =
      [''device_id'', ''ambient_temp'', ''humidity'', ''soil_moisture'', ''soil_temp'',
       ''wind_speed'', ''longitude'', ''latitude'']"
    by (simp add: record_fields_def)
  show ?thesis
    unfolding well_formed_line_def line_fields_wire_line take_wire_line
    using k wire_line_body_chars [of r] by simp
qed

lemma finite_well_formed:
  assumes "finite_record r"
  shows "well_formed_line (wire_line r)"
proof -
  have f: "is_finite (ambient_temp r)" "is_finite (humidity r)" "is_finite (soil_moisture r)"
    "is_finite (soil_temp r)" "is_finite (wind_speed r)" "is_finite (longitude r)"
    "is_finite (latitude r)"
    using assms by (simp_all add: finite_record_def)
  have "list_all2 is_fixed_decimal [2, 2, 1, 1, 1, 6, 6] (map snd (tl (record_fields r)))"
    unfolding record_fields_def
    using f by (simp add: fmt_fixed_finite del: fmt_fixed.simps)
  then show ?thesis by (simp only: well_formed_wire_line)
qed

subsection \<open>Accuracy of the temperature conversion\<close>

lemma find_exp_lower: "pow2 (- 126) \<le> a \<Longrightarrow> pow2 (find_exp n a) \<le> a"
  by (induction n) simp_all

lemma ulp32_relative:
  assumes "pow2 (- 126) \<le> a"
  shows "ulp32 a \<le> a / 2 ^ 23"
proof -
  have "ulp32 a = pow2 (find_exp 253 a) * pow2 (- 23)"
    unfolding ulp32_def by (simp add: pow2_add [symmetric])
  also have "\<dots> \<le> a * pow2 (- 23)"
    using find_exp_lower [OF assms, of 253] pow2_pos [of "- 23"] by (simp add: mult_right_mono)
  finally show ?thesis by (simp add: pow2_def)
qed

lemma round_grid_relative:
  assumes "pow2 (- 126) \<le> a"
  shows "\<bar>of_int (round_half_even (a / ulp32 a)) * ulp32 a - a\<bar> \<le> a / 2 ^ 24"
  using round_grid_error [of a] ulp32_relative [OF assms] by simp

lemma round32_relative:
  assumes "1 / 2 \<le> a" "a \<le> of_int B" "B < 2 ^ 24"
  shows "\<exists>p. round32 sg a = Finite sg p \<and> 0 \<le> p \<and> \<bar>p - a\<bar> \<le> a / 2 ^ 24"
proof -
  define p where "p = of_int (round_half_even (a / ulp32 a)) * ulp32 a"
  have "of_int 0 \<le> a" using assms(1) by simp
  then have "\<exists>r. round32 sg a = Finite sg r \<and> of_int 0 \<le> r \<and> r \<le> of_int B"
    using assms(2) by (rule round32_squeeze) (use assms(3) in simp_all)
  moreover have "round32 sg a = (if pow2 128 \<le> p then Infinity sg else Finite sg p)"
    by (simp add: round32_def p_def Let_def)
  ultimately have r: "round32 sg a = Finite sg p" "0 \<le> p"
    by (auto split: if_splits)
  have "pow2 (- 126) \<le> 1 / 2" by (simp add: pow2_def)
  then have "pow2 (- 126) \<le> a" using assms(1) by simp
  then have "\<bar>p - a\<bar> \<le> a / 2 ^ 24" unfolding p_def by (rule round_grid_relative)
  with r show ?thesis by blast
qed

lemma celsius_accuracy:
  assumes "\<bar>i\<bar> < 2 ^ 24" "\<bar>i - 32\<bar> < 2 ^ 24"
  shows "\<exists>sg p. f32_div (f32_sub (f32_of_int i) (f32 32)) (f32 (18 / 10)) = Finite sg p \<and>
           \<bar>valof (Finite sg p) - (of_int i - 32) / (18 / 10)\<bar> \<le> \<bar>of_int i - 32\<bar> / 2 ^ 24"
proof -
  define c :: rat where "c = 7549747 / 4194304"
  have x: "f32_of_int i = Finite (i < 0) (of_int \<bar>i\<bar>)"
    using assms(1) by (rule f32_of_int_small)
  have vx: "valof (Finite (i < 0) (of_int \<bar>i\<bar>)) + valof (Finite True 32) = of_int (i - 32)"
    by (simp add: valof_def)
  have "f32_sub (f32_of_int i) (f32 32) =
      f32_add (Finite (i < 0) (of_int \<bar>i\<bar>)) (Finite True 32)"
    by (simp only: x f32_consts f32_sub_def f32_neg.simps) simp
  also have "\<dots> =
      (let r = valof (Finite (i < 0) (of_int \<bar>i\<bar>)) + valof (Finite True 32)
       in if r = 0 then Finite (i < 0 \<and> True) 0 else f32 r)"
    by (rule f32_add.simps)
  also have "\<dots> = (if i = 32 then Finite False 0 else f32 (of_int (i - 32)))"
    unfolding vx Let_def by auto
  finally have sub: "f32_sub (f32_of_int i) (f32 32) =
      (if i = 32 then Finite False 0 else f32 (of_int (i - 32)))" .
  have d: "f32_div (f32_sub (f32_of_int i) (f32 32)) (f32 (18 / 10)) =
      f32_div (if i = 32 then Finite False 0 else f32 (of_int (i - 32))) (Finite False c)"
    by (subst sub) (simp only: f32_consts c_def)
  show ?thesis
  proof (cases "i = 32")
    case True
    have "round32 False (of_int 0) = Finite False (of_int 0)"
      by (rule round32_small_int) simp_all
    then have "f32_div (Finite False 0) (Finite False c) = Finite False 0"
      by (simp add: c_def)
    then have "f32_div (f32_sub (f32_of_int i) (f32 32)) (f32 (18 / 10)) = Finite False 0"
      unfolding d using True by simp
    then show ?thesis using True by (auto simp: valof_def)
  next
    case False
    define M :: rat where "M = of_int \<bar>i - 32\<bar>"
    have "1 \<le> \<bar>i - 32\<bar>" using False by linarith
    then have M1: "1 \<le> M" unfolding M_def by (simp only: of_int_1_le_iff)
    have y: "f32 (of_int (i - 32)) = Finite (i < 32) M"
    proof -
      have "round32 (i < 32) (of_int \<bar>i - 32\<bar>) = Finite (i < 32) (of_int \<bar>i - 32\<bar>)"
        using assms(2) by (intro round32_small_int) simp_all
      moreover have "((of_int (i - 32) :: rat) < 0) = (i < 32)" by simp
      moreover have "\<bar>of_int (i - 32) :: rat\<bar> = of_int \<bar>i - 32\<bar>" by simp
      ultimately show ?thesis unfolding f32_def M_def by (simp only:)
    qed
    have cpos: "0 < c" "1 \<le> c" by (simp_all add: c_def)
    have a_lo: "1 / 2 \<le> M / c" using M1 by (simp add: c_def field_simps)
    have a_hi: "M / c \<le> of_int \<bar>i - 32\<bar>"
      using M1 cpos unfolding M_def [symmetric] by (simp add: field_simps)
    obtain p where p: "round32 (i < 32) (M / c) = Finite (i < 32) p" "0 \<le> p"
      "\<bar>p - M / c\<bar> \<le> M / c / 2 ^ 24"
      using round32_relative [OF a_lo a_hi assms(2)] by blast
    have "f32_div (Finite (i < 32) M) (Finite False c) = round32 (i < 32) (M / c)"
      using cpos M1 by simp
    then have z: "f32_div (f32_sub (f32_of_int i) (f32 32)) (f32 (18 / 10)) = Finite (i < 32) p"
      unfolding d using False y p(1) by simp
    have "\<bar>p - M / (18 / 10)\<bar> \<le> \<bar>p - M / c\<bar> + \<bar>M / c - M / (18 / 10)\<bar>" by simp
    also have "\<dots> \<le> M / c / 2 ^ 24 + \<bar>M / c - M / (18 / 10)\<bar>" using p(3) by simp
    also have "\<dots> \<le> M / 2 ^ 24" using M1 by (simp add: c_def field_simps abs_if)
    finally have err: "\<bar>p - M / (18 / 10)\<bar> \<le> M / 2 ^ 24" .
    have v: "valof (Finite (i < 32) p) - (of_int i - 32) / (18 / 10) =
        (if i < 32 then - (p - M / (18 / 10)) else p - M / (18 / 10))"
      using p(2) by (auto simp: valof_def M_def abs_if field_simps)
    have "\<bar>valof (Finite (i < 32) p) - (of_int i - 32) / (18 / 10)\<bar> = \<bar>p - M / (18 / 10)\<bar>"
      unfolding v by (cases "i < 32") (simp_all only: if_True if_False abs_minus_cancel)
    moreover have "\<bar>of_int i - 32 :: rat\<bar> = M" unfolding M_def by simp
    ultimately show ?thesis using z err by auto
  qed
qed

subsection \<open>Runs that agree on the published readings\<close>

lemma published_read_sensors:
  "published_vars (read_sensors s env) =
     (store (temp_sense_writes env) (board_temp_c s),
      store (w_latitude_deg (gga env)) (gps_latitude_deg s),
      store (w_longitude_deg (gga env)) (gps_longitude_deg s))"
  by (simp add: published_vars_def read_sensors_def Let_def)

lemma agree_step:
  assumes "agree e1 e2" "published_vars s1 = published_vars s2"
  shows "sample s1 e1 = sample s2 e2"
    and "published_vars (read_sensors s1 e1) = published_vars (read_sensors s2 e2)"
proof -
  have v: "board_temp_c s1 = board_temp_c s2" "gps_latitude_deg s1 = gps_latitude_deg s2"
    "gps_longitude_deg s1 = gps_longitude_deg s2"
    using assms(2) by (simp_all add: published_vars_def)
  have e: "temp_sense_writes e1 = temp_sense_writes e2" "dht_fahrenheit e1 = dht_fahrenheit e2"
    "dht_humidity e1 = dht_humidity e2" "soil_read e1 = soil_read e2"
    "w_latitude_deg (gga e1) = w_latitude_deg (gga e2)"
    "w_longitude_deg (gga e1) = w_longitude_deg (gga e2)"
    using assms(1) by (simp_all add: agree_def)
  show "sample s1 e1 = sample s2 e2"
    by (rule telemetry_record.equality) (simp_all add: sample_fields v e)
  show "published_vars (read_sensors s1 e1) = published_vars (read_sensors s2 e2)"
    by (simp only: published_read_sensors v e)
qed

lemma agree_runs:
  assumes "list_all2 agree es1 es2" "published_vars s1 = published_vars s2"
  shows "cycles_trace s1 es1 = cycles_trace s2 es2"
  using assms
proof (induction es1 es2 arbitrary: s1 s2 rule: list_all2_induct)
  case Nil
  then show ?case by simp
next
  case (Cons e1 es1 e2 es2)
  note step = agree_step [OF Cons.hyps(1) Cons.prems]
  have "cycles_trace (read_sensors s1 e1) es1 = cycles_trace (read_sensors s2 e2) es2"
    using step(2) by (rule Cons.IH)
  then show ?case by (simp add: step(1))
qed

section \<open>The claims\<close>

text \<open>
  C1 (as amended).  For every record whose seven numbers are finite, \<^verbatim>\<open>printf\<close> succeeds
  and produces one line, the only one of its iteration: the eight fields in the fixed
  order, each as \<open>key=value\<close>, joined by commas, every number written as a decimal numeral
  with 2, 2, 1, 1, 1, 6 and 6 digits after the point, closed by CR LF, of ASCII characters
  only and with no CR or LF before the closing pair.  (Success, the order of the fields,
  the closing CR LF and the characters do not depend on the numbers being finite.)
\<close>

theorem encode_line_format:
  "encode r = Inr (wire_line r) \<and>
   emitted s env = [wire_line (sample s env)] \<and>
   wire_line r = join_fields (record_fields r) @ [CHR 0x0D, CHR 0x0A] \<and>
   line_fields (wire_line r) = Some (record_fields r) \<and>
   list_all line_char (join_fields (record_fields r)) \<and>
   (finite_record r \<longrightarrow> well_formed_line (wire_line r))"
proof (intro conjI impI)
  show "encode r = Inr (wire_line r)" by (rule encode_wire_line)
  show "emitted s env = [wire_line (sample s env)]" by (rule emitted_eq)
  show "wire_line r = join_fields (record_fields r) @ [CHR 0x0D, CHR 0x0A]"
    by (rule wire_line_def)
  show "line_fields (wire_line r) = Some (record_fields r)" by (rule line_fields_wire_line)
  show "list_all line_char (join_fields (record_fields r))" by (rule wire_line_body_chars)
  show "well_formed_line (wire_line r)" if "finite_record r"
    using that by (rule finite_well_formed)
qed

theorem encode_line_format_witness:
  "finite_record (sample main_init example_env) \<and>
   encode (sample main_init example_env) = Inr (wire_line (sample main_init example_env)) \<and>
   well_formed_line (wire_line (sample main_init example_env)) \<and>
   wire_line (sample main_init example_env) =
     ''device_id=MIZU_0001,ambient_temp=25.00,humidity=60.00,soil_moisture=45.8,soil_temp=22.1,wind_speed=5.2,longitude=-122.419403,latitude=37.774899''
     @ [CHR 0x0D, CHR 0x0A]"
proof -
  have f: "finite_record (sample main_init example_env)"
    by (simp add: finite_record_def example_record [OF example_readings_example_env])
  show ?thesis
    using encode_line_format [of "sample main_init example_env"] f
      example_line [OF example_readings_example_env, of main_init]
    by blast
qed

text \<open>
  C1 as stated fails: when the board temperature driver stores a NaN or an infinity, the
  line carries \<open>soil_temp=nan\<close>, \<open>soil_temp=-nan\<close> or \<open>soil_temp=inf\<close>, with no digits
  after a point.
\<close>

theorem encode_line_format_counterexample:
  "emitted main_init nan_env =
     [''device_id=MIZU_0001,ambient_temp=25.00,humidity=60.00,soil_moisture=45.8,soil_temp=nan,wind_speed=5.2,longitude=-122.419403,latitude=37.774899''
      @ [CHR 0x0D, CHR 0x0A]] \<and>
   emitted_field main_init nan_env ''soil_temp'' = Some ''nan'' \<and>
   \<not> is_fixed_decimal 1 ''nan'' \<and>
   \<not> list_all well_formed_line (emitted main_init nan_env) \<and>
   emitted_field main_init (example_env \<lparr> temp_sense_writes := Some (NaN True) \<rparr>) ''soil_temp''
     = Some ''-nan'' \<and>
   \<not> is_fixed_decimal 1 ''-nan'' \<and>
   emitted_field main_init (example_env \<lparr> temp_sense_writes := Some (Infinity False) \<rparr>)
     ''soil_temp'' = Some ''inf'' \<and>
   \<not> is_fixed_decimal 1 ''inf''"
proof -
  have n: "sint (dht_fahrenheit nan_env) = 77" "sint (dht_humidity nan_env) = 60"
    "soil_read nan_env = f32 (458 / 1000)" "temp_sense_writes nan_env = Some (NaN False)"
    "w_longitude_deg (gga nan_env) = Some (f32 (- (1224194 / 10000)))"
    "w_latitude_deg (gga nan_env) = Some (f32 (377749 / 10000))"
    by (simp_all add: nan_env_def example_env_def)
  have v: "ambient_temp (sample main_init nan_env) = Finite False 25"
    "humidity (sample main_init nan_env) = Finite False 60"
    "soil_moisture (sample main_init nan_env) = Finite False (12006195 / 262144)"
    "soil_temp (sample main_init nan_env) = NaN False"
    "wind_speed (sample main_init nan_env) = Finite False (5452595 / 1048576)"
    "longitude (sample main_init nan_env) = Finite True (4011439 / 32768)"
    "latitude (sample main_init nan_env) = Finite False (9902463 / 262144)"
  proof -
    show "ambient_temp (sample main_init nan_env) = Finite False 25"
      by (simp only: sample_fields n seventy_seven)
    show "humidity (sample main_init nan_env) = Finite False 60"
      by (simp only: sample_fields n sixty)
    show "soil_moisture (sample main_init nan_env) = Finite False (12006195 / 262144)"
      by (simp only: sample_fields n soil_example)
    show "soil_temp (sample main_init nan_env) = NaN False"
      by (simp only: sample_fields n store_simps)
    show "wind_speed (sample main_init nan_env) = Finite False (5452595 / 1048576)"
      by (simp only: sample_fields f32_consts)
    show "longitude (sample main_init nan_env) = Finite True (4011439 / 32768)"
      by (simp only: sample_fields n store_simps example_values)
    show "latitude (sample main_init nan_env) = Finite False (9902463 / 262144)"
      by (simp only: sample_fields n store_simps example_values)
  qed
  have fields: "record_fields (sample main_init nan_env) =
      [(''device_id'', ''MIZU_0001''), (''ambient_temp'', ''25.00''), (''humidity'', ''60.00''),
       (''soil_moisture'', ''45.8''), (''soil_temp'', ''nan''), (''wind_speed'', ''5.2''),
       (''longitude'', ''-122.419403''), (''latitude'', ''37.774899'')]"
    by (simp only: record_fields_def v example_texts example_texts_wind fmt_fixed.simps(1)
        if_False)
  have l: "emitted main_init nan_env =
     [''device_id=MIZU_0001,ambient_temp=25.00,humidity=60.00,soil_moisture=45.8,soil_temp=nan,wind_speed=5.2,longitude=-122.419403,latitude=37.774899''
      @ [CHR 0x0D, CHR 0x0A]]"
    by (simp add: emitted_eq wire_line_def fields)
  have f: "emitted_field main_init nan_env ''soil_temp'' = Some ''nan''"
    by (simp only: emitted_field_eq field_of_wire_line v fmt_fixed.simps(1) if_False)
  have "\<not> well_formed_line (wire_line (sample main_init nan_env))"
    by (simp only: well_formed_wire_line fields) (simp add: nan_not_decimal)
  then have w: "\<not> list_all well_formed_line (emitted main_init nan_env)"
    by (simp add: emitted_eq)
  have other: "emitted_field main_init (example_env \<lparr> temp_sense_writes := Some x \<rparr>) ''soil_temp''
      = Some (fmt_fixed 1 x)" for x
  proof -
    have "temp_sense_writes (example_env \<lparr> temp_sense_writes := Some x \<rparr>) = Some x" by simp
    then have "soil_temp (sample main_init (example_env \<lparr> temp_sense_writes := Some x \<rparr>)) = x"
      by (simp only: sample_fields store_simps)
    then show ?thesis by (simp only: emitted_field_eq field_of_wire_line)
  qed
  have m: "emitted_field main_init (example_env \<lparr> temp_sense_writes := Some (NaN True) \<rparr>)
      ''soil_temp'' = Some ''-nan''"
    by (simp only: other fmt_fixed.simps(1) if_True)
  have i: "emitted_field main_init (example_env \<lparr> temp_sense_writes := Some (Infinity False) \<rparr>)
      ''soil_temp'' = Some ''inf''"
    by (simp only: other fmt_fixed.simps(2) if_False)
  from l f w m i nan_not_decimal not_decimal show ?thesis by blast
qed

text \<open>
  C2 (as amended).  An iteration in which the drivers show the readings of the example
  (22.1 on the board, 77 degrees Fahrenheit and 60 percent, the fraction 0.458, latitude
  37.7749 and longitude -122.4194, each the nearest \<^verbatim>\<open>float\<close>), whatever the voltage and
  the other outputs of the GPS driver, hands exactly this line to the serial link.
\<close>

theorem example_cycle_line:
  assumes "example_readings env"
  shows "emitted s env =
    [''device_id=MIZU_0001,ambient_temp=25.00,humidity=60.00,soil_moisture=45.8,soil_temp=22.1,wind_speed=5.2,longitude=-122.419403,latitude=37.774899''
     @ [CHR 0x0D, CHR 0x0A]]"
proof -
  note r = example_record [OF assms, of s]
  have "record_fields (sample s env) =
      [(''device_id'', ''MIZU_0001''), (''ambient_temp'', ''25.00''), (''humidity'', ''60.00''),
       (''soil_moisture'', ''45.8''), (''soil_temp'', ''22.1''), (''wind_speed'', ''5.2''),
       (''longitude'', ''-122.419403''), (''latitude'', ''37.774899'')]"
    by (simp only: record_fields_def r example_texts example_texts_wind)
  then have "wire_line (sample s env) =
    ''device_id=MIZU_0001,ambient_temp=25.00,humidity=60.00,soil_moisture=45.8,soil_temp=22.1,wind_speed=5.2,longitude=-122.419403,latitude=37.774899''
    @ [CHR 0x0D, CHR 0x0A]"
    by (simp add: wire_line_def)
  then show ?thesis by (simp only: emitted_eq)
qed

theorem example_cycle_line_witness:
  "example_readings example_env \<and>
   emitted main_init example_env =
    [''device_id=MIZU_0001,ambient_temp=25.00,humidity=60.00,soil_moisture=45.8,soil_temp=22.1,wind_speed=5.2,longitude=-122.419403,latitude=37.774899''
     @ [CHR 0x0D, CHR 0x0A]]"
proof -
  have r: "example_readings example_env"
    by (simp add: example_readings_def example_env_def)
  show ?thesis using example_cycle_line [OF r, of main_init] r by simp
qed

text \<open>
  C2 as stated fails: the line of the example is not the literal of the interface
  description.
\<close>

theorem example_cycle_line_counterexample:
  "emitted main_init example_env \<noteq>
    [''device_id=MIZU_0001,ambient_temp=25.50,humidity=60.20,soil_moisture=45.80,soil_temp=22.10,wind_speed=5.20,longitude=-122.419400,latitude=37.774900''
     @ [CHR 0x0D, CHR 0x0A]]"
  by (simp add: emitted_eq example_line [OF example_readings_example_env])




text \<open>
  C4.  The ambient temperature handed to \<^verbatim>\<open>printf\<close> is the Fahrenheit reading converted
  to \<^verbatim>\<open>float\<close>, minus \<^verbatim>\<open>32.0f\<close>, divided by \<^verbatim>\<open>1.8f\<close>, every step in single precision.
  For a reading below \<open>2\<^sup>2\<^sup>3\<close> in magnitude the result is finite and within
  \<open>\<bar>f - 32\<bar> / 2\<^sup>2\<^sup>4\<close> of the exact \<open>(f - 32) / 1.8\<close>; 77 gives exactly 25,
  transmitted as \<open>25.00\<close>.  The humidity handed to \<^verbatim>\<open>printf\<close> is the integer reading
  converted to \<^verbatim>\<open>float\<close>, which keeps the value of every integer below \<open>2\<^sup>2\<^sup>4\<close> in
  magnitude, so of every percentage.
\<close>

theorem ambient_conversion:
  "ambient_temp (sample s env) =
     f32_div (f32_sub (f32_of_int (sint (dht_fahrenheit env))) (f32 32)) (f32 (18 / 10)) \<and>
   emitted_field s env ''ambient_temp'' = Some (fmt_fixed 2 (ambient_temp (sample s env))) \<and>
   (\<bar>sint (dht_fahrenheit env)\<bar> < 2 ^ 23 \<longrightarrow>
      is_finite (ambient_temp (sample s env)) \<and>
      \<bar>valof (ambient_temp (sample s env)) - (of_int (sint (dht_fahrenheit env)) - 32) / (18 / 10)\<bar>
        \<le> \<bar>of_int (sint (dht_fahrenheit env)) - 32\<bar> / 2 ^ 24) \<and>
   (sint (dht_fahrenheit env) = 77 \<longrightarrow>
      ambient_temp (sample s env) = Finite False 25 \<and>
      emitted_field s env ''ambient_temp'' = Some ''25.00'') \<and>
   humidity (sample s env) = f32_of_int (sint (dht_humidity env)) \<and>
   emitted_field s env ''humidity'' = Some (fmt_fixed 2 (humidity (sample s env))) \<and>
   (\<bar>sint (dht_humidity env)\<bar> < 2 ^ 24 \<longrightarrow>
      is_finite (humidity (sample s env)) \<and>
      valof (humidity (sample s env)) = of_int (sint (dht_humidity env)))"
proof (intro conjI impI)
  show "ambient_temp (sample s env) =
     f32_div (f32_sub (f32_of_int (sint (dht_fahrenheit env))) (f32 32)) (f32 (18 / 10))"
    by (rule sample_fields)
  show "emitted_field s env ''ambient_temp'' = Some (fmt_fixed 2 (ambient_temp (sample s env)))"
    by (simp only: emitted_field_eq field_of_wire_line)
  show "humidity (sample s env) = f32_of_int (sint (dht_humidity env))"
    by (rule sample_fields)
  show "emitted_field s env ''humidity'' = Some (fmt_fixed 2 (humidity (sample s env)))"
    by (simp only: emitted_field_eq field_of_wire_line)
next
  assume b: "\<bar>sint (dht_fahrenheit env)\<bar> < 2 ^ 23"
  then have "\<bar>sint (dht_fahrenheit env)\<bar> < 2 ^ 24" "\<bar>sint (dht_fahrenheit env) - 32\<bar> < 2 ^ 24"
    by simp_all
  then obtain sg p where p:
    "f32_div (f32_sub (f32_of_int (sint (dht_fahrenheit env))) (f32 32)) (f32 (18 / 10)) =
       Finite sg p"
    "\<bar>valof (Finite sg p) - (of_int (sint (dht_fahrenheit env)) - 32) / (18 / 10)\<bar>
       \<le> \<bar>of_int (sint (dht_fahrenheit env)) - 32\<bar> / 2 ^ 24"
    using celsius_accuracy [of "sint (dht_fahrenheit env)"] by blast
  have a: "ambient_temp (sample s env) = Finite sg p" by (simp only: sample_fields p(1))
  show "is_finite (ambient_temp (sample s env))" by (simp only: a is_finite.simps)
  show "\<bar>valof (ambient_temp (sample s env)) -
      (of_int (sint (dht_fahrenheit env)) - 32) / (18 / 10)\<bar>
      \<le> \<bar>of_int (sint (dht_fahrenheit env)) - 32\<bar> / 2 ^ 24"
    using p(2) by (simp only: a)
next
  assume f: "sint (dht_fahrenheit env) = 77"
  show a: "ambient_temp (sample s env) = Finite False 25"
    by (simp only: sample_fields f seventy_seven)
  show "emitted_field s env ''ambient_temp'' = Some ''25.00''"
    by (simp only: emitted_field_eq field_of_wire_line a example_texts)
next
  assume h: "\<bar>sint (dht_humidity env)\<bar> < 2 ^ 24"
  show "is_finite (humidity (sample s env))"
    using f32_of_int_value [OF h] by (simp only: sample_fields)
  show "valof (humidity (sample s env)) = of_int (sint (dht_humidity env))"
    using f32_of_int_value [OF h] by (simp only: sample_fields)
qed

theorem ambient_conversion_witness:
  "sint (dht_fahrenheit example_env) = 77 \<and>
   \<bar>sint (dht_fahrenheit example_env)\<bar> < 2 ^ 23 \<and>
   is_finite (ambient_temp (sample main_init example_env)) \<and>
   \<bar>sint (dht_humidity example_env)\<bar> < 2 ^ 24 \<and>
   ambient_temp (sample main_init example_env) = Finite False 25 \<and>
   emitted_field main_init example_env ''ambient_temp'' = Some ''25.00'' \<and>
   valof (humidity (sample main_init example_env)) = 60"
proof -
  have f: "sint (dht_fahrenheit example_env) = 77" by (rule example_reads [OF example_readings_example_env])
  have h: "sint (dht_humidity example_env) = 60" by (rule example_reads [OF example_readings_example_env])
  have h2: "\<bar>sint (dht_humidity example_env)\<bar> < 2 ^ 24" by (simp add: h)
  have "valof (humidity (sample main_init example_env)) = of_int (sint (dht_humidity example_env))"
    using ambient_conversion [of main_init example_env] h2 by blast
  then have v: "valof (humidity (sample main_init example_env)) = 60" by (simp add: h)
  have "ambient_temp (sample main_init example_env) = Finite False 25 \<and>
      emitted_field main_init example_env ''ambient_temp'' = Some ''25.00''"
    using ambient_conversion [of main_init example_env] f by blast
  moreover have f2: "\<bar>sint (dht_fahrenheit example_env)\<bar> < 2 ^ 23" by (simp add: f)
  moreover have "is_finite (ambient_temp (sample main_init example_env))"
    using ambient_conversion [of main_init example_env] f2 by blast
  ultimately show ?thesis using f h2 v by blast
qed

text \<open>
  C5.  The soil moisture handed to \<^verbatim>\<open>printf\<close> is the reading of the analog input
  multiplied by 100 in single precision.  For a reading between 0 and 1 it lies between
  0 and 100 and differs from the exact product by at most \<open>2\<^sup>-\<^sup>1\<^sup>8\<close>.  The
  reading 0.458 is transmitted as \<open>45.8\<close>.
\<close>

theorem soil_moisture_is_scaled:
  "soil_moisture (sample s env) = f32_mul (soil_read env) (f32 100) \<and>
   (soil_read env = Finite sg m \<and> 0 \<le> m \<and> m \<le> 1 \<longrightarrow>
      (\<exists>p. soil_moisture (sample s env) = Finite sg p \<and> 0 \<le> p \<and> p \<le> 100 \<and>
           \<bar>p - m * 100\<bar> \<le> 1 / 2 ^ 18)) \<and>
   (soil_read env = f32 (458 / 1000) \<longrightarrow>
      emitted_field s env ''soil_moisture'' = Some ''45.8'')"
proof (intro conjI impI)
  show "soil_moisture (sample s env) = f32_mul (soil_read env) (f32 100)"
    by (rule sample_fields)
next
  assume a: "soil_read env = Finite sg m \<and> 0 \<le> m \<and> m \<le> 1"
  then have "0 \<le> m * 100" "m * 100 \<le> 100" by simp_all
  then obtain p where p: "round32 sg (m * 100) = Finite sg p" "0 \<le> p" "p \<le> 100"
    "\<bar>p - m * 100\<bar> \<le> 1 / 2 ^ 18"
    using round32_percent [of "m * 100" sg] by blast
  have "f32_mul (Finite sg m) (Finite False 100) = round32 sg (m * 100)"
    using a by simp
  then have "soil_moisture (sample s env) = Finite sg p"
    using a p(1) by (simp only: sample_fields f32_consts)
  with p show "\<exists>p. soil_moisture (sample s env) = Finite sg p \<and> 0 \<le> p \<and> p \<le> 100 \<and>
      \<bar>p - m * 100\<bar> \<le> 1 / 2 ^ 18"
    by blast
next
  assume "soil_read env = f32 (458 / 1000)"
  then have "soil_moisture (sample s env) = Finite False (12006195 / 262144)"
    by (simp only: sample_fields soil_example)
  then show "emitted_field s env ''soil_moisture'' = Some ''45.8''"
    by (simp only: emitted_field_eq field_of_wire_line example_texts)
qed

theorem soil_moisture_is_scaled_witness:
  "soil_read example_env = Finite False (7683965 / 16777216) \<and>
   soil_moisture (sample main_init example_env) = Finite False (12006195 / 262144) \<and>
   \<bar>12006195 / 262144 - 7683965 / 16777216 * (100 :: rat)\<bar> \<le> 1 / 2 ^ 18 \<and>
   emitted_field main_init example_env ''soil_moisture'' = Some ''45.8''"
proof -
  have r: "soil_read example_env = Finite False (7683965 / 16777216)"
    by (simp only: example_reads [OF example_readings_example_env] example_values)
  have r': "soil_read example_env = f32 (458 / 1000)"
    by (rule example_reads [OF example_readings_example_env])
  have b: "(0 :: rat) \<le> 7683965 / 16777216 \<and> (7683965 / 16777216 :: rat) \<le> 1" by simp
  have m: "soil_moisture (sample main_init example_env) = Finite False (12006195 / 262144)"
    by (rule example_record [OF example_readings_example_env])
  show ?thesis
    using soil_moisture_is_scaled [of main_init example_env False "7683965 / 16777216"] r r' b m
    by auto
qed

text \<open>
  C6.  When the board temperature driver stores a value in an iteration, that value,
  unchanged, is the soil temperature handed to \<^verbatim>\<open>printf\<close> in the same iteration, and the
  \<open>soil_temp\<close> field of the line is that value with one digit after the point.
\<close>

theorem soil_temp_is_board_temp:
  assumes "temp_sense_writes env = Some v"
  shows "soil_temp (sample s env) = v \<and>
         emitted_field s env ''soil_temp'' = Some (fmt_fixed 1 v)"
proof -
  have "soil_temp (sample s env) = v"
    by (simp only: sample_fields assms store_simps)
  then show ?thesis by (simp add: emitted_field_eq field_of_wire_line)
qed

theorem soil_temp_is_board_temp_witness:
  "temp_sense_writes example_env = Some (f32 (221 / 10)) \<and>
   soil_temp (sample main_init example_env) = f32 (221 / 10) \<and>
   emitted_field main_init example_env ''soil_temp'' = Some ''22.1''"
proof -
  have t: "temp_sense_writes example_env = Some (f32 (221 / 10))"
    by (simp add: example_env_def)
  have "fmt_fixed 1 (f32 (221 / 10)) = ''22.1''"
    by (simp only: example_values example_texts)
  then show ?thesis
    using soil_temp_is_board_temp [OF t, of main_init] t by simp
qed

text \<open>
  C7.  In every iteration, whatever the variables hold and whatever the drivers do, the
  wind speed handed to \<^verbatim>\<open>printf\<close> is the constant \<open>kDummyWindSpeedMs\<close>, and the
  \<open>wind_speed\<close> field of the transmitted line reads \<open>5.2\<close>.
\<close>

theorem wind_speed_is_constant:
  "wind_speed (sample s env) = kDummyWindSpeedMs \<and>
   kDummyWindSpeedMs = f32 (52 / 10) \<and>
   emitted_field s env ''wind_speed'' = Some ''5.2''"
proof -
  have w: "wind_speed (sample s env) = kDummyWindSpeedMs"
    by (rule sample_fields)
  have "emitted_field s env ''wind_speed'' = Some (fmt_fixed 1 (wind_speed (sample s env)))"
    by (simp only: emitted_field_eq field_of_wire_line)
  then have "emitted_field s env ''wind_speed'' = Some ''5.2''"
    by (simp only: w wind_text)
  with w show ?thesis by (simp only: kDummyWindSpeedMs_def)
qed

theorem wind_speed_is_constant_witness:
  "emitted_field main_init silent_env ''wind_speed'' = Some ''5.2'' \<and>
   emitted_field main_init example_env ''wind_speed'' = Some ''5.2''"
  using wind_speed_is_constant [of main_init silent_env]
    wind_speed_is_constant [of main_init example_env]
  by simp

text \<open>
  C8.  Two iterations, from any variables and with any behaviour of the drivers, that agree
  on the Fahrenheit and humidity readings, on the soil fraction, and on the board
  temperature, latitude and longitude present after the driver calls, perform the same
  events and hand the same single line to the serial link, whatever the voltage driver and
  the other outputs of the GPS driver do.  The voltage driver is called first in each;
  that it stores nothing changes nothing.  Hence two runs of any length whose drivers
  agree in this way iteration by iteration, from variables that agree on board temperature,
  latitude and longitude, perform the same events.
\<close>

theorem unpublished_inputs_do_not_show:
  "(dht_fahrenheit e1 = dht_fahrenheit e2 \<and>
    dht_humidity e1 = dht_humidity e2 \<and>
    soil_read e1 = soil_read e2 \<and>
    store (temp_sense_writes e1) (board_temp_c s1) =
      store (temp_sense_writes e2) (board_temp_c s2) \<and>
    store (w_latitude_deg (gga e1)) (gps_latitude_deg s1) =
      store (w_latitude_deg (gga e2)) (gps_latitude_deg s2) \<and>
    store (w_longitude_deg (gga e1)) (gps_longitude_deg s1) =
      store (w_longitude_deg (gga e2)) (gps_longitude_deg s2) \<longrightarrow>
      emitted s1 e1 = emitted s2 e2 \<and>
      (\<exists>evs. loop_body s1 e1 = Inr (Vol # evs, vars_after s1 e1) \<and>
             loop_body s2 e2 = Inr (Vol # evs, vars_after s2 e2))) \<and>
   emitted s1 e1 = [wire_line (sample s1 e1)] \<and>
   emitted s1 (e1 \<lparr> vol_writes := None \<rparr>) = emitted s1 e1 \<and>
   (list_all2 agree es1 es2 \<and> published_vars t1 = published_vars t2 \<longrightarrow>
      (\<exists>evs. iterations t1 es1 = Inr (evs, foldl read_sensors t1 es1) \<and>
             iterations t2 es2 = Inr (evs, foldl read_sensors t2 es2)))"
proof (intro conjI impI)
  assume a: "dht_fahrenheit e1 = dht_fahrenheit e2 \<and>
    dht_humidity e1 = dht_humidity e2 \<and>
    soil_read e1 = soil_read e2 \<and>
    store (temp_sense_writes e1) (board_temp_c s1) =
      store (temp_sense_writes e2) (board_temp_c s2) \<and>
    store (w_latitude_deg (gga e1)) (gps_latitude_deg s1) =
      store (w_latitude_deg (gga e2)) (gps_latitude_deg s2) \<and>
    store (w_longitude_deg (gga e1)) (gps_longitude_deg s1) =
      store (w_longitude_deg (gga e2)) (gps_longitude_deg s2)"
  have eq: "sample s1 e1 = sample s2 e2"
    by (rule telemetry_record.equality) (simp_all add: sample_fields a)
  show "emitted s1 e1 = emitted s2 e2"
    by (simp only: emitted_eq eq)
  show "\<exists>evs. loop_body s1 e1 = Inr (Vol # evs, vars_after s1 e1) \<and>
      loop_body s2 e2 = Inr (Vol # evs, vars_after s2 e2)"
    by (simp add: loop_body_events vars_after_eq cycle_events_def eq)
next
  show "emitted s1 e1 = [wire_line (sample s1 e1)]"
    by (rule emitted_eq)
  have "sample s1 (e1 \<lparr> vol_writes := None \<rparr>) = sample s1 e1"
    by (rule telemetry_record.equality) (simp_all add: sample_fields)
  then show "emitted s1 (e1 \<lparr> vol_writes := None \<rparr>) = emitted s1 e1"
    by (simp only: emitted_eq)
next
  assume "list_all2 agree es1 es2 \<and> published_vars t1 = published_vars t2"
  then have "cycles_trace t1 es1 = cycles_trace t2 es2"
    using agree_runs [of es1 es2 t1 t2] by blast
  then show "\<exists>evs. iterations t1 es1 = Inr (evs, foldl read_sensors t1 es1) \<and>
      iterations t2 es2 = Inr (evs, foldl read_sensors t2 es2)"
    by (simp add: iterations_eq)
qed

theorem unpublished_inputs_do_not_show_witness:
  "emitted main_init (example_env \<lparr> vol_writes := None, gga := gga example_env
       \<lparr> w_time_utc := Some (f32 123519), w_fix_check := Some 0, w_sat_count := Some 8 \<rparr> \<rparr>)
     = emitted main_init example_env \<and>
   emitted (vars_after main_init example_env) silent_env = emitted main_init example_env \<and>
   (\<exists>evs. iterations main_init [example_env, silent_env] =
            Inr (evs, foldl read_sensors main_init [example_env, silent_env]) \<and>
          iterations main_init [example_env \<lparr> vol_writes := None \<rparr>, silent_env] =
            Inr (evs, foldl read_sensors main_init
                        [example_env \<lparr> vol_writes := None \<rparr>, silent_env]))"
proof -
  let ?e = "example_env \<lparr> vol_writes := None, gga := gga example_env
       \<lparr> w_time_utc := Some (f32 123519), w_fix_check := Some 0, w_sat_count := Some 8 \<rparr> \<rparr>"
  have h1: "dht_fahrenheit ?e = dht_fahrenheit example_env \<and>
    dht_humidity ?e = dht_humidity example_env \<and>
    soil_read ?e = soil_read example_env \<and>
    store (temp_sense_writes ?e) (board_temp_c main_init) =
      store (temp_sense_writes example_env) (board_temp_c main_init) \<and>
    store (w_latitude_deg (gga ?e)) (gps_latitude_deg main_init) =
      store (w_latitude_deg (gga example_env)) (gps_latitude_deg main_init) \<and>
    store (w_longitude_deg (gga ?e)) (gps_longitude_deg main_init) =
      store (w_longitude_deg (gga example_env)) (gps_longitude_deg main_init)"
    by simp
  have 1: "emitted main_init ?e = emitted main_init example_env"
    using unpublished_inputs_do_not_show [of ?e example_env main_init main_init] h1 by blast
  have h2: "dht_fahrenheit silent_env = dht_fahrenheit example_env \<and>
    dht_humidity silent_env = dht_humidity example_env \<and>
    soil_read silent_env = soil_read example_env \<and>
    store (temp_sense_writes silent_env) (board_temp_c (vars_after main_init example_env)) =
      store (temp_sense_writes example_env) (board_temp_c main_init) \<and>
    store (w_latitude_deg (gga silent_env)) (gps_latitude_deg (vars_after main_init example_env)) =
      store (w_latitude_deg (gga example_env)) (gps_latitude_deg main_init) \<and>
    store (w_longitude_deg (gga silent_env)) (gps_longitude_deg (vars_after main_init example_env)) =
      store (w_longitude_deg (gga example_env)) (gps_longitude_deg main_init)"
    by (simp add: vars_after_eq read_sensors_def Let_def silent_env_def example_env_def store_def)
  have 2: "emitted (vars_after main_init example_env) silent_env = emitted main_init example_env"
    using unpublished_inputs_do_not_show
      [of silent_env example_env "vars_after main_init example_env" main_init] h2
    by blast
  have h3: "list_all2 agree [example_env, silent_env]
      [example_env \<lparr> vol_writes := None \<rparr>, silent_env] \<and>
      published_vars main_init = published_vars main_init"
    by (simp add: agree_def)
  have 3: "\<exists>evs. iterations main_init [example_env, silent_env] =
            Inr (evs, foldl read_sensors main_init [example_env, silent_env]) \<and>
          iterations main_init [example_env \<lparr> vol_writes := None \<rparr>, silent_env] =
            Inr (evs, foldl read_sensors main_init
                        [example_env \<lparr> vol_writes := None \<rparr>, silent_env])"
    using unpublished_inputs_do_not_show
      [of _ _ _ _ "[example_env, silent_env]"
          "[example_env \<lparr> vol_writes := None \<rparr>, silent_env]" main_init main_init] h3
    by blast
  from 1 2 3 show ?thesis by blast
qed

text \<open>
  C9.  After every number \<open>n\<close> of iterations, whatever the drivers do, the program is
  still running: it has neither returned nor failed.  Its events so far are the two calls
  before the loop and, for each iteration, the seven driver calls, one \<^verbatim>\<open>printf\<close> of the
  line of that iteration's readings, and one \<^verbatim>\<open>wait(1.0f)\<close>, in this order: iteration
  \<open>n + 1\<close> appends exactly these nine events to those of the first \<open>n\<close>.  So after \<open>n\<close>
  iterations exactly \<open>n\<close> lines have been handed to the serial link.
\<close>

theorem loop_runs_forever:
  "main n envs =
     Still_running ([Timer_start, Gps_setting] @ cycles_trace main_init (map envs [0..<n]))
       (foldl read_sensors main_init (map envs [0..<n])) \<and>
   main (Suc n) envs =
     (case main n envs of
        Still_running tr s \<Rightarrow>
          Still_running
            (tr @ [Vol, Temp_sense, Dht_read, Dht_getFahrenheit, Dht_getHumidity, Soil_read,
                   Gga_sensing, Comms_printf (wire_line (sample s (envs n))), Wait (f32 1)])
            (read_sensors s (envs n))
      | Returned tr \<Rightarrow> Returned tr
      | Failed e tr \<Rightarrow> Failed e tr) \<and>
   main n envs \<noteq> Returned tr' \<and>
   main n envs \<noteq> Failed e' tr' \<and>
   (\<exists>tr s. main n envs = Still_running tr s \<and> length (printed tr) = n \<and>
      length tr = 2 + 9 * n) \<and>
   main_loop n s0 envs k tr0 =
     Still_running (tr0 @ cycles_trace s0 (map envs [k..<k + n]))
       (foldl read_sensors s0 (map envs [k..<k + n])) \<and>
   iterations s0 es = Inr (cycles_trace s0 es, foldl read_sensors s0 es) \<and>
   encode (sample s0 env) = Inr (wire_line (sample s0 env))"
proof -
  have m: "main n envs =
     Still_running ([Timer_start, Gps_setting] @ cycles_trace main_init (map envs [0..<n]))
       (foldl read_sensors main_init (map envs [0..<n]))" for n
    using main_loop_eq [of n main_init envs 0 "[Timer_start, Gps_setting]"]
    by (simp add: main_def)
  have step: "main (Suc n) envs =
     (case main n envs of
        Still_running tr s \<Rightarrow>
          Still_running
            (tr @ [Vol, Temp_sense, Dht_read, Dht_getFahrenheit, Dht_getHumidity, Soil_read,
                   Gga_sensing, Comms_printf (wire_line (sample s (envs n))), Wait (f32 1)])
            (read_sensors s (envs n))
      | Returned tr \<Rightarrow> Returned tr
      | Failed e tr \<Rightarrow> Failed e tr)"
    unfolding main_def
    by (subst main_loop_Suc) (simp add: cycle_events_def f32_consts split: outcome.split)
  have count: "length (printed ([Timer_start, Gps_setting] @
      cycles_trace main_init (map envs [0..<n]))) = n"
    by (simp add: printed_append length_printed_cycles)
  have len: "length ([Timer_start, Gps_setting] @ cycles_trace main_init (map envs [0..<n])) =
      2 + 9 * n"
    by (simp add: length_cycles_trace)
  have ex: "\<exists>tr s. main n envs = Still_running tr s \<and> length (printed tr) = n \<and>
      length tr = 2 + 9 * n"
    using m [of n] count len by blast
  have no: "main n envs \<noteq> Returned tr'" "main n envs \<noteq> Failed e' tr'"
    by (simp_all add: m)
  show ?thesis
    using m [of n] step ex no main_loop_eq [of n s0 envs k tr0] iterations_eq [of s0 es]
      encode_wire_line [of "sample s0 env"]
    by blast
qed

theorem loop_runs_forever_witness:
  "main 2 (\<lambda>k. example_env) \<noteq> Returned [] \<and>
   main 2 (\<lambda>k. example_env) \<noteq> Failed Bad_format [] \<and>
   (\<exists>tr s. main 2 (\<lambda>k. example_env) = Still_running tr s \<and> length (printed tr) = 2 \<and>
      length tr = 20)"
proof -
  note t = loop_runs_forever
    [of 2 "\<lambda>k. example_env" "[]" Bad_format main_init 0 "[]" "[]" example_env]
  have "main 2 (\<lambda>k. example_env) \<noteq> Returned []"
    "main 2 (\<lambda>k. example_env) \<noteq> Failed Bad_format []"
    "\<exists>tr s. main 2 (\<lambda>k. example_env) = Still_running tr s \<and> length (printed tr) = 2 \<and>
      length tr = 2 + 9 * 2"
    using t by blast+
  then show ?thesis by simp
qed

text \<open>
  C10.  The humidity is converted from an \<^verbatim>\<open>int\<close>, so its value is a whole number, and
  the \<open>humidity\<close> field of every transmitted line is a sign, digits, and \<open>.00\<close>.
\<close>

theorem humidity_fraction_is_00:
  "\<exists>n. emitted_field s env ''humidity'' =
     Some ((if sint (dht_humidity env) < 0 then ''-'' else '''') @ dec n @ ''.00'')"
proof -
  obtain k where k: "0 \<le> k"
    "f32_of_int (sint (dht_humidity env)) = Finite (sint (dht_humidity env) < 0) (of_int k)"
    using f32_of_sint_integral [of "dht_humidity env"] by blast
  have "humidity (sample s env) = Finite (sint (dht_humidity env) < 0) (of_int k)"
    by (simp only: sample_fields k)
  then have "emitted_field s env ''humidity'' =
      Some (fmt_fixed 2 (Finite (sint (dht_humidity env) < 0) (of_int k)))"
    by (simp add: emitted_field_eq field_of_wire_line)
  then show ?thesis using fmt_fixed_2_integral [OF k(1)] by auto
qed

theorem humidity_fraction_is_00_witness:
  "emitted_field main_init example_env ''humidity'' = Some ''60.00'' \<and>
   (\<exists>n. emitted_field main_init example_env ''humidity'' = Some (dec n @ ''.00''))"
proof -
  have e: "emitted_field main_init example_env ''humidity'' = Some ''60.00''"
    by (rule example_fields)
  have "sint (dht_humidity example_env) = 60" by (simp add: example_env_def)
  then show ?thesis using humidity_fraction_is_00 [of main_init example_env] e by simp
qed

end
